theory Spec2Isabelle
  imports Main "HOL-Library.AList" "HOL-Library.Char_ord" "HOL-Library.List_Lexorder"
begin

section \<open>JSON values as JavaScript sees them\<close>

text \<open>
  The project manager reads and writes JSON files (\<^verbatim>\<open>tsconfig.json\<close>, \<^verbatim>\<open>package.json\<close>,
  \<^verbatim>\<open>lerna.json\<close>). A file holds the value \<^verbatim>\<open>JSON.parse\<close> returns for it. An object is
  an association list; lookups go through \<open>map_of\<close> and writes through \<open>AList.update\<close>
  (a key that is present keeps its place, a new key goes last; JavaScript lists keys that
  are array indices first, which no property below depends on). A number is kept as the
  text JavaScript prints for it.
\<close>

datatype json =
    JNull
  | JBool bool
  | JNum string
  | JStr string
  | JArr "json list"
  | JObj "(string \<times> json) list"

datatype error =
    FileSystemError
  | SyntaxError
  | TypeError
  | PackageManagerError
  | ManifestExistsError

fun intercalate :: "string \<Rightarrow> string list \<Rightarrow> string" where
  "intercalate sep [] = []"
| "intercalate sep [x] = x"
| "intercalate sep (x # y # ys) = x @ sep @ intercalate sep (y # ys)"

text \<open>The list of the results, or the first error among them.\<close>

fun allOrError :: "(error + 'a) list \<Rightarrow> error + 'a list" where
  "allOrError [] = Inr []"
| "allOrError (r # rs) =
     (case r of
        Inl e \<Rightarrow> Inl e
      | Inr x \<Rightarrow> (case allOrError rs of Inl e \<Rightarrow> Inl e | Inr xs \<Rightarrow> Inr (x # xs)))"

text \<open>
  \<^verbatim>\<open>String(v)\<close> for a JSON value: what a template literal \<^verbatim>\<open>`${v}`\<close> inserts. An array
  is joined with commas, \<^verbatim>\<open>null\<close> elements printing as nothing. An object prints as
  \<^verbatim>\<open>[object Object]\<close> through \<^verbatim>\<open>Object.prototype.toString\<close>, unless it has an own property
  \<^verbatim>\<open>toString\<close>: a JSON value is not callable, \<^verbatim>\<open>valueOf\<close> gives no primitive either, and
  the conversion is a \<^verbatim>\<open>TypeError\<close>.
\<close>

fun ToString :: "json \<Rightarrow> error + string" where
  "ToString JNull = Inr ''null''"
| "ToString (JBool b) = Inr (if b then ''true'' else ''false'')"
| "ToString (JNum n) = Inr n"
| "ToString (JStr s) = Inr s"
| "ToString (JArr xs) =
     (case allOrError (map (\<lambda>x. if x = JNull then Inr [] else ToString x) xs) of
        Inl e \<Rightarrow> Inl e
      | Inr parts \<Rightarrow> Inr (intercalate '','' parts))"
| "ToString (JObj kvs) =
     (if ''toString'' \<in> fst ` set kvs then Inl TypeError else Inr ''[object Object]'')"

text \<open>A value that may be \<^verbatim>\<open>undefined\<close> is a \<open>json option\<close>, \<open>None\<close> for \<^verbatim>\<open>undefined\<close>.\<close>

definition template :: "json option \<Rightarrow> error + string" where
  "template v = (case v of None \<Rightarrow> Inr ''undefined'' | Some j \<Rightarrow> ToString j)"

text \<open>
  \<^verbatim>\<open>v.k\<close> for the property names the source reads (\<^verbatim>\<open>name\<close>, \<^verbatim>\<open>compilerOptions\<close>,
  \<^verbatim>\<open>paths\<close>): a \<^verbatim>\<open>TypeError\<close> on \<^verbatim>\<open>undefined\<close> and \<^verbatim>\<open>null\<close>, the own property of an
  object, \<^verbatim>\<open>undefined\<close> on a string, a number, a boolean or an array.
\<close>

fun getProp :: "json option \<Rightarrow> string \<Rightarrow> error + json option" where
  "getProp None k = Inl TypeError"
| "getProp (Some JNull) k = Inl TypeError"
| "getProp (Some (JObj kvs)) k = Inr (map_of kvs k)"
| "getProp (Some (JBool b)) k = Inr None"
| "getProp (Some (JNum n)) k = Inr None"
| "getProp (Some (JStr s)) k = Inr None"
| "getProp (Some (JArr xs)) k = Inr None"

text \<open>The decimal digits of an array index, as a property key.\<close>

fun decimal :: "nat \<Rightarrow> string" where
  "decimal n =
     (if n < 10 then [''0123456789'' ! n]
      else decimal (n div 10) @ [''0123456789'' ! (n mod 10)])"

declare decimal.simps [simp del]

definition indexed :: "json list \<Rightarrow> (string \<times> json) list" where
  "indexed xs = zip (map decimal [0..<length xs]) xs"

text \<open>
  The own enumerable properties an object spread \<^verbatim>\<open>{...v}\<close> copies: none for
  \<^verbatim>\<open>undefined\<close>, \<^verbatim>\<open>null\<close>, a number or a boolean, the entries of an object, the indexed
  elements of an array or of a string.
\<close>

fun spread :: "json option \<Rightarrow> (string \<times> json) list" where
  "spread None = []"
| "spread (Some JNull) = []"
| "spread (Some (JBool b)) = []"
| "spread (Some (JNum n)) = []"
| "spread (Some (JStr s)) = indexed (map (\<lambda>c. JStr [c]) s)"
| "spread (Some (JArr xs)) = indexed xs"
| "spread (Some (JObj kvs)) = kvs"

text \<open>
  An object literal \<^verbatim>\<open>{...base, k1: v1, k2: v2}\<close>: the properties are defined from left
  to right on top of the spread ones, a later key overwriting an earlier equal one.
\<close>

definition objectLiteral :: "(string \<times> json) list \<Rightarrow> (string \<times> json) list \<Rightarrow> (string \<times> json) list" where
  "objectLiteral base props = foldl (\<lambda>acc (k, v). AList.update k v acc) base props"

section \<open>Paths (Node's POSIX \<^verbatim>\<open>path\<close> module)\<close>

fun segments :: "string \<Rightarrow> string list" where
  "segments [] = [[]]"
| "segments (c # cs) =
     (if c = CHR ''/'' then [] # segments cs
      else (case segments cs of [] \<Rightarrow> [[c]] | s # ss \<Rightarrow> (c # s) # ss))"

text \<open>
  \<^verbatim>\<open>normalizeString\<close>, on the list of segments: empty segments and \<^verbatim>\<open>.\<close> are dropped,
  \<^verbatim>\<open>..\<close> removes the segment before it, and is kept only where the path may climb above
  its start.
\<close>

fun normalizeSegs :: "bool \<Rightarrow> string list \<Rightarrow> string list \<Rightarrow> string list" where
  "normalizeSegs allowAboveRoot res [] = res"
| "normalizeSegs allowAboveRoot res (s # ss) =
     (if s = [] \<or> s = ''.'' then normalizeSegs allowAboveRoot res ss
      else if s = ''..'' then
        (if res \<noteq> [] \<and> last res \<noteq> ''..'' then normalizeSegs allowAboveRoot (butlast res) ss
         else if allowAboveRoot then normalizeSegs allowAboveRoot (res @ [''..'']) ss
         else normalizeSegs allowAboveRoot res ss)
      else normalizeSegs allowAboveRoot (res @ [s]) ss)"

definition isAbsolute :: "string \<Rightarrow> bool" where
  "isAbsolute p = (case p of [] \<Rightarrow> False | c # cs \<Rightarrow> c = CHR ''/'')"

definition normalizeString :: "string \<Rightarrow> bool \<Rightarrow> string" where
  "normalizeString p allowAboveRoot = intercalate ''/'' (normalizeSegs allowAboveRoot [] (segments p))"

definition normalize :: "string \<Rightarrow> string" where
  "normalize p =
     (if p = [] then ''.''
      else
        (let isAbs = isAbsolute p;
             trailingSeparator = (last p = CHR ''/'');
             n = normalizeString p (\<not> isAbs)
         in if n = [] then (if isAbs then ''/'' else if trailingSeparator then ''./'' else ''.'')
            else (if isAbs then ''/'' else []) @ n @ (if trailingSeparator then ''/'' else [])))"

definition join :: "string list \<Rightarrow> string" where
  "join args =
     (let joined = intercalate ''/'' (filter (\<lambda>a. a \<noteq> []) args)
      in if joined = [] then ''.'' else normalize joined)"

text \<open>
  \<^verbatim>\<open>resolve\<close> walks its arguments from the right, then the working directory, until the
  path built so far is absolute.
\<close>

fun resolveFrom :: "string list \<Rightarrow> string \<Rightarrow> string" where
  "resolveFrom [] resolvedPath = resolvedPath"
| "resolveFrom (p # ps) resolvedPath =
     (if p = [] then resolveFrom ps resolvedPath
      else if isAbsolute p then p @ ''/'' @ resolvedPath
      else resolveFrom ps (p @ ''/'' @ resolvedPath))"

definition resolve :: "string \<Rightarrow> string list \<Rightarrow> string" where
  "resolve workdir args =
     (let resolvedPath = resolveFrom (rev (workdir # args)) [];
          resolvedAbsolute = isAbsolute resolvedPath;
          n = normalizeString resolvedPath (\<not> resolvedAbsolute)
      in if resolvedAbsolute then CHR ''/'' # n else if n = [] then ''.'' else n)"

definition basename :: "string \<Rightarrow> string" where
  "basename p =
     rev (takeWhile (\<lambda>c. c \<noteq> CHR ''/'') (dropWhile (\<lambda>c. c = CHR ''/'') (rev p)))"

section \<open>Errors, the file system and the state of a run\<close>

text \<open>
  A file holds a parsed JSON document, the serialized configuration document of a
  declared-module set, or some other text (which \<^verbatim>\<open>readJSON\<close> cannot parse). The file
  system maps the segments of an absolute path to a node; the directory \<^verbatim>\<open>/\<close> always
  exists. There are no symbolic links and no permissions; a relative path is taken from
  the working directory and \<^verbatim>\<open>..\<close> is resolved on the text of the path.
\<close>

datatype content =
    JsonDoc json
  | ConfigDoc "string list"
  | OtherText string

datatype node = Dir | File content

type_synonym filesystem = "(string list \<times> node) list"

text \<open>
  Modelled from the spec: the data of the collaborators, whose declarations are not in
  the sources. The package-manager variant is one of two (the source names
  \<^verbatim>\<open>PMType.Yarn\<close>); a manifest has a name, a privacy flag and its dependencies; the
  configuration manager owns the declared modules; a module has a name, a
  fully-qualified name and the variant it is bound to.
\<close>

datatype PMType = NPM | Yarn

record PackageManifest =
  pkg_name :: string
  pkg_private :: bool
  dependencies :: "(string \<times> string) list"
  devDependencies :: "(string \<times> string) list"

record PMController =
  pm_type :: PMType
  pm_root :: string
  manifest :: "PackageManifest option"

record ConfigManager =
  modules :: "string list"

record ModuleManager =
  mod_name :: string
  fullName :: string
  mod_pm :: PMType

text \<open>
  The fields of the \<^verbatim>\<open>ProjectManager\<close> object (\<open>pm\<close> and \<open>configPath\<close> are
  \<^verbatim>\<open>undefined\<close> until they are assigned), and the world it runs in: the working
  directory, the file system, the package registry the package manager resolves names
  in, and the paths of the files written so far, in the order of the writes.
\<close>

record state =
  root :: string
  name :: string
  externalPath :: string
  configManager :: ConfigManager
  pm :: "PMController option"
  configPath :: "string option"
  cwd :: string
  files :: filesystem
  registry :: "(string \<times> string) list"
  writes :: "string list list"

type_synonym 'a io = "state \<Rightarrow> (error + 'a) \<times> state"

definition ret :: "'a \<Rightarrow> 'a io" where
  "ret x = (\<lambda>s. (Inr x, s))"

definition throw :: "error \<Rightarrow> 'a io" where
  "throw e = (\<lambda>s. (Inl e, s))"

text \<open>\<^verbatim>\<open>await m; f\<close>: a rejected promise ends the operation in the state reached.\<close>

definition bindIO :: "'a io \<Rightarrow> ('a \<Rightarrow> 'b io) \<Rightarrow> 'b io" where
  "bindIO m f = (\<lambda>s. case m s of (Inl e, s') \<Rightarrow> (Inl e, s') | (Inr x, s') \<Rightarrow> f x s')"

definition liftE :: "error + 'a \<Rightarrow> 'a io" where
  "liftE r = (case r of Inl e \<Rightarrow> throw e | Inr x \<Rightarrow> ret x)"

subsection \<open>The functions of \<^verbatim>\<open>fs-extra\<close> the source calls\<close>

definition pathKey :: "string \<Rightarrow> string \<Rightarrow> string list" where
  "pathKey workdir p =
     normalizeSegs False [] (segments (if isAbsolute p then p else workdir @ ''/'' @ p))"

definition lookupNode :: "filesystem \<Rightarrow> string list \<Rightarrow> node option" where
  "lookupNode fs k = (if k = [] then Some Dir else map_of fs k)"

text \<open>
  \<^verbatim>\<open>pathExists\<close> asks the operating system (\<^verbatim>\<open>fs.access\<close>), which walks the path as it
  is written: every step, also \<^verbatim>\<open>.\<close> and \<^verbatim>\<open>..\<close>, starts in a directory that exists. The
  empty path does not exist.
\<close>

fun walk :: "filesystem \<Rightarrow> string list \<Rightarrow> string list \<Rightarrow> string list option" where
  "walk fs cur [] = Some cur"
| "walk fs cur (seg # rest) =
     (if lookupNode fs cur \<noteq> Some Dir then None
      else if seg = [] \<or> seg = ''.'' then walk fs cur rest
      else if seg = ''..'' then walk fs (butlast cur) rest
      else walk fs (cur @ [seg]) rest)"

definition osExists :: "filesystem \<Rightarrow> string \<Rightarrow> string \<Rightarrow> bool" where
  "osExists fs workdir p =
     (p \<noteq> [] \<and>
      (case walk fs (if isAbsolute p then [] else pathKey workdir []) (segments p) of
         None \<Rightarrow> False
       | Some k \<Rightarrow> lookupNode fs k \<noteq> None))"

definition pathExists :: "string \<Rightarrow> bool io" where
  "pathExists p = (\<lambda>s. (Inr (osExists (files s) (cwd s) p), s))"

text \<open>\<^verbatim>\<open>mkdir\<close> fails where the path exists, or its parent is missing or is a file.\<close>

definition mkdir :: "string \<Rightarrow> unit io" where
  "mkdir p = (\<lambda>s.
     let k = pathKey (cwd s) p in
     if lookupNode (files s) k \<noteq> None then (Inl FileSystemError, s)
     else (case lookupNode (files s) (butlast k) of
             Some Dir \<Rightarrow> (Inr (), s\<lparr>files := AList.update k Dir (files s)\<rparr>)
           | Some (File c) \<Rightarrow> (Inl FileSystemError, s)
           | None \<Rightarrow> (Inl FileSystemError, s)))"

text \<open>
  \<^verbatim>\<open>ensureDir\<close> resolves the path on its text (\<^verbatim>\<open>path.resolve\<close>) and creates the missing
  directories along it; a file on the way fails.
\<close>

fun mkdirp :: "string list \<Rightarrow> string list \<Rightarrow> filesystem \<Rightarrow> error + filesystem" where
  "mkdirp pre [] fs = Inr fs"
| "mkdirp pre (seg # rest) fs =
     (case lookupNode fs (pre @ [seg]) of
        Some (File c) \<Rightarrow> Inl FileSystemError
      | Some Dir \<Rightarrow> mkdirp (pre @ [seg]) rest fs
      | None \<Rightarrow> mkdirp (pre @ [seg]) rest (AList.update (pre @ [seg]) Dir fs))"

definition ensureDir :: "string \<Rightarrow> unit io" where
  "ensureDir p = (\<lambda>s.
     case mkdirp [] (pathKey (cwd s) p) (files s) of
       Inl e \<Rightarrow> (Inl e, s)
     | Inr fs' \<Rightarrow> (Inr (), s\<lparr>files := fs'\<rparr>))"

text \<open>
  \<^verbatim>\<open>writeFile\<close> creates or replaces a file in an existing directory, and fails on a
  directory. Each write is recorded in \<open>writes\<close>.
\<close>

definition writeFile :: "string \<Rightarrow> content \<Rightarrow> unit io" where
  "writeFile p c = (\<lambda>s.
     let k = pathKey (cwd s) p in
     if lookupNode (files s) k = Some Dir then (Inl FileSystemError, s)
     else (case lookupNode (files s) (butlast k) of
             Some Dir \<Rightarrow>
               (Inr (), s\<lparr>files := AList.update k (File c) (files s), writes := writes s @ [k]\<rparr>)
           | Some (File c') \<Rightarrow> (Inl FileSystemError, s)
           | None \<Rightarrow> (Inl FileSystemError, s)))"

definition writeJSON :: "string \<Rightarrow> json \<Rightarrow> unit io" where
  "writeJSON p j = writeFile p (JsonDoc j)"

definition readJSON :: "string \<Rightarrow> json io" where
  "readJSON p = (\<lambda>s.
     case lookupNode (files s) (pathKey (cwd s) p) of
       None \<Rightarrow> (Inl FileSystemError, s)
     | Some Dir \<Rightarrow> (Inl FileSystemError, s)
     | Some (File (JsonDoc j)) \<Rightarrow> (Inr j, s)
     | Some (File (ConfigDoc ms)) \<Rightarrow> (Inl SyntaxError, s)
     | Some (File (OtherText t)) \<Rightarrow> (Inl SyntaxError, s))"

text \<open>
  The entries of a directory, files and directories alike. The \<^verbatim>\<open>readdir\<close> of
  \<^verbatim>\<open>fs-extra\<close> is that of \<^verbatim>\<open>graceful-fs\<close>, which sorts the names it returns
  (\<^verbatim>\<open>files.sort()\<close>: by the codes of their characters, capitals before small letters).
\<close>

definition entries :: "filesystem \<Rightarrow> string list \<Rightarrow> string list" where
  "entries fs d =
     sort (map (\<lambda>(k, n). last k)
             (filter (\<lambda>(k, n). k \<noteq> [] \<and> butlast k = d) (AList.clearjunk fs)))"

definition readdir :: "string \<Rightarrow> string list io" where
  "readdir p = (\<lambda>s.
     case lookupNode (files s) (pathKey (cwd s) p) of
       None \<Rightarrow> (Inl FileSystemError, s)
     | Some (File c) \<Rightarrow> (Inl FileSystemError, s)
     | Some Dir \<Rightarrow> (Inr (entries (files s) (pathKey (cwd s) p)), s))"

section \<open>The collaborators of the project manager\<close>

text \<open>
  \<^verbatim>\<open>ConfigManager\<close>, \<^verbatim>\<open>PMController\<close> and \<^verbatim>\<open>ModuleManager\<close> are imported from
  \<^verbatim>\<open>@replikit/cli\<close>; \<^verbatim>\<open>projectManager.ts\<close> only calls them. Their definitions below
  follow the specification's description of each operation.
\<close>

text \<open>Modelled from the spec: \<^verbatim>\<open>ConfigManager.init\<close> resets to an empty declared-module set.\<close>

definition ConfigManager_init :: "ConfigManager \<Rightarrow> ConfigManager" where
  "ConfigManager_init c = c\<lparr>modules := []\<rparr>"

text \<open>Modelled from the spec: \<^verbatim>\<open>ConfigManager.checkModule\<close> is the membership test.\<close>

definition checkModule :: "ConfigManager \<Rightarrow> string \<Rightarrow> bool" where
  "checkModule c full = (full \<in> set (modules c))"

text \<open>
  Modelled from the spec: \<^verbatim>\<open>ConfigManager.addModule\<close> inserts if absent and is a no-op
  (not an error) if the name is already present.
\<close>

definition addModule :: "ConfigManager \<Rightarrow> string \<Rightarrow> ConfigManager" where
  "addModule c full = (if full \<in> set (modules c) then c else c\<lparr>modules := modules c @ [full]\<rparr>)"

text \<open>
  Modelled from the spec: \<^verbatim>\<open>ConfigManager.serialize\<close> produces the configuration document
  of the current declared-module set (an opaque text: here the set itself).
\<close>

definition serialize :: "ConfigManager \<Rightarrow> content" where
  "serialize c = ConfigDoc (modules c)"

text \<open>
  Modelled from the spec: \<^verbatim>\<open>createPMController\<close> selects the variant for the project root;
  no manifest is in memory yet.
\<close>

definition createPMController :: "PMType \<Rightarrow> string \<Rightarrow> PMController" where
  "createPMController t r = \<lparr>pm_type = t, pm_root = r, manifest = None\<rparr>"

text \<open>\<^verbatim>\<open>this.pm.m(...)\<close>: a \<^verbatim>\<open>TypeError\<close> while \<^verbatim>\<open>this.pm\<close> is \<^verbatim>\<open>undefined\<close>.\<close>

definition withPM :: "(PMController \<Rightarrow> 'a io) \<Rightarrow> 'a io" where
  "withPM f = (\<lambda>s. case pm s of None \<Rightarrow> (Inl TypeError, s) | Some c \<Rightarrow> f c s)"

text \<open>
  Modelled from the spec: \<^verbatim>\<open>PMController.init(name, private)\<close> creates the manifest with
  the given name and privacy, and fails with \<^verbatim>\<open>ManifestExistsError\<close> if the controller
  already has one.
\<close>

definition PMController_init :: "PMController \<Rightarrow> string \<Rightarrow> bool \<Rightarrow> unit io" where
  "PMController_init c nm priv = (\<lambda>s.
     case manifest c of
       Some m \<Rightarrow> (Inl ManifestExistsError, s)
     | None \<Rightarrow>
         (Inr (), s\<lparr>pm := Some (c\<lparr>manifest :=
            Some \<lparr>pkg_name = nm, pkg_private = priv, dependencies = [], devDependencies = []\<rparr>\<rparr>)\<rparr>))"

text \<open>
  Modelled from the spec: the package manifest file is
  \<^verbatim>\<open>{name, private, dependencies, devDependencies}\<close>.
\<close>

definition manifestJSON :: "PackageManifest \<Rightarrow> json" where
  "manifestJSON m =
     JObj [(''name'', JStr (pkg_name m)),
           (''private'', JBool (pkg_private m)),
           (''dependencies'', JObj (map (\<lambda>(k, v). (k, JStr v)) (dependencies m))),
           (''devDependencies'', JObj (map (\<lambda>(k, v). (k, JStr v)) (devDependencies m)))]"

text \<open>
  Modelled from the spec: \<^verbatim>\<open>PMController.save\<close> persists the in-memory manifest to the
  file \<^verbatim>\<open>package.json\<close> of the controller's root; with no manifest in memory it fails.
\<close>

definition PMController_save :: "PMController \<Rightarrow> unit io" where
  "PMController_save c =
     (case manifest c of
        None \<Rightarrow> throw PackageManagerError
      | Some m \<Rightarrow> writeJSON (join [pm_root c, ''package.json'']) (manifestJSON m))"

text \<open>
  Modelled from the spec: \<^verbatim>\<open>PMController.install(names, isDev?)\<close> resolves the names in
  the registry and records them in the manifest, in memory and on disk; it fails with
  \<^verbatim>\<open>PackageManagerError\<close>, changing nothing, when a name does not resolve or there is no
  manifest. An absent \<^verbatim>\<open>isDev\<close> counts as false.
\<close>

definition PMController_install :: "PMController \<Rightarrow> string list \<Rightarrow> bool option \<Rightarrow> unit io" where
  "PMController_install c names dev = (\<lambda>s.
     case manifest c of
       None \<Rightarrow> (Inl PackageManagerError, s)
     | Some m \<Rightarrow>
         (case those (map (map_of (registry s)) names) of
            None \<Rightarrow> (Inl PackageManagerError, s)
          | Some versions \<Rightarrow>
              (let added = zip names versions;
                   m' = (if dev = Some True
                         then m\<lparr>devDependencies := foldl (\<lambda>acc (k, v). AList.update k v acc) (devDependencies m) added\<rparr>
                         else m\<lparr>dependencies := foldl (\<lambda>acc (k, v). AList.update k v acc) (dependencies m) added\<rparr>);
                   c' = c\<lparr>manifest := Some m'\<rparr>
               in PMController_save c' (s\<lparr>pm := Some c'\<rparr>))))"

text \<open>
  Modelled from the spec: a \<^verbatim>\<open>ModuleManager\<close> has a name, a fully-qualified name derived
  from the project scope, and the package-manager variant it is bound to.
\<close>

definition ModuleManager_new :: "string \<Rightarrow> string \<Rightarrow> PMType \<Rightarrow> ModuleManager" where
  "ModuleManager_new project nm t =
     \<lparr>mod_name = nm, fullName = ''@'' @ project @ ''/'' @ nm, mod_pm = t\<rparr>"

section \<open>\<^verbatim>\<open>ProjectManager\<close>\<close>

text \<open>
  The constructor, and the world the new object runs in. The \<^verbatim>\<open>GitController\<close> it
  creates plays no part in the operations below. \<^verbatim>\<open>load\<close> is not embedded: it only calls
  collaborators (the configuration-path resolver and the detection of the package
  manager), and no property below is about it.
\<close>

definition ProjectManager ::
  "string \<Rightarrow> ConfigManager option \<Rightarrow> string \<Rightarrow> filesystem \<Rightarrow> (string \<times> string) list \<Rightarrow> state" where
  "ProjectManager r cm workdir fs reg =
     \<lparr>root = r,
      name = basename r,
      externalPath = join [r, ''external''],
      configManager = (case cm of None \<Rightarrow> \<lparr>modules = []\<rparr> | Some c \<Rightarrow> c),
      pm = None,
      configPath = None,
      cwd = workdir,
      files = fs,
      registry = reg,
      writes = []\<rparr>"

text \<open>\<^verbatim>\<open>writeFile(undefined, ...)\<close> is a \<^verbatim>\<open>TypeError\<close>.\<close>

definition saveConfig :: "unit io" where
  "saveConfig = (\<lambda>s.
     case configPath s of
       None \<Rightarrow> (Inl TypeError, s)
     | Some p \<Rightarrow> writeFile p (serialize (configManager s)) s)"

definition setPackageManager :: "PMType \<Rightarrow> state \<Rightarrow> state" where
  "setPackageManager t s = s\<lparr>pm := Some (createPMController t (root s))\<rparr>"

definition tsconfigPaths :: "string \<Rightarrow> (string \<times> json) list" where
  "tsconfigPaths nm =
     objectLiteral []
       [(''@'' @ nm @ ''/*'', JArr [JStr ''*/src'']),
        (''@'' @ nm @ ''/*/typings'', JArr [JStr ''*/typings''])]"

definition initialTsconfig :: "string \<Rightarrow> json" where
  "initialTsconfig nm =
     JObj [(''compilerOptions'',
            JObj [(''target'', JStr ''es2019''),
                  (''module'', JStr ''commonjs''),
                  (''moduleResolution'', JStr ''node''),
                  (''baseUrl'', JStr ''modules''),
                  (''strict'', JBool True),
                  (''paths'', JObj (tsconfigPaths nm))]),
           (''include'', JArr [JStr ''replikit.config.ts'', JStr ''modules/**/*.ts''])]"

definition init :: "unit io" where
  "init = (\<lambda>this.
     bindIO (\<lambda>s. (Inr (), s\<lparr>configManager := ConfigManager_init (configManager s)\<rparr>)) (\<lambda>_.
     bindIO (pathExists (root this)) (\<lambda>exists.
     bindIO (if \<not> exists then ensureDir (root this) else ret ()) (\<lambda>_.
     bindIO (mkdir (resolve (cwd this) [root this, ''modules''])) (\<lambda>_.
     bindIO (writeJSON (resolve (cwd this) [root this, ''tsconfig.json''])
               (initialTsconfig (name this))) (\<lambda>_.
     bindIO (withPM (\<lambda>c. PMController_init c (name this) True)) (\<lambda>_.
     bindIO (withPM PMController_save) (\<lambda>_.
     bindIO (\<lambda>s. (Inr (),
               s\<lparr>configPath := Some (resolve (cwd this) [root this, ''replikit.config.ts''])\<rparr>)) (\<lambda>_.
     saveConfig)))))))) this)"

definition lernaConfig :: "PMType \<Rightarrow> json" where
  "lernaConfig t =
     (let isYarn = (t = Yarn);
          props = (if isYarn then [(''npmClient'', JStr ''yarn''), (''useWorkspaces'', JBool True)]
                   else [(''npmClient'', JStr ''npm'')])
      in JObj (objectLiteral [] ((''version'', JStr ''0.0.0'') # props)))"

definition addLerna :: "unit io" where
  "addLerna = (\<lambda>this.
     bindIO (withPM (\<lambda>c. PMController_install c [''lerna''] (Some True))) (\<lambda>_.
     withPM (\<lambda>c. writeJSON (resolve (cwd this) [root this, ''lerna.json''])
                    (lernaConfig (pm_type c)))) this)"

text \<open>
  The two entries \<^verbatim>\<open>addExternalRepo\<close> writes for a repository, where \<open>scope\<close> is the text
  \<^verbatim>\<open>${packageJson.name}\<close> of the name its manifest declares.
\<close>

definition externalEntries :: "string \<Rightarrow> string \<Rightarrow> (string \<times> json) list" where
  "externalEntries scope path =
     [(''@'' @ scope @ ''/*'', JArr [JStr (''../external/'' @ path @ ''/modules/*/src'')]),
      (''@'' @ scope @ ''/*/typings'',
         JArr [JStr (''../external/'' @ path @ ''/modules/*/typings'')])]"

text \<open>
  \<^verbatim>\<open>tsconfig.compilerOptions.paths = v\<close>, giving the document \<^verbatim>\<open>writeJSON\<close> will then
  serialize: the property is set on an object; set on an array it is not serialized;
  on a string, number or boolean the assignment is a \<^verbatim>\<open>TypeError\<close> (module code is
  strict), as it is on \<^verbatim>\<open>undefined\<close> and \<^verbatim>\<open>null\<close>.
\<close>

definition assignPaths :: "json \<Rightarrow> (string \<times> json) list \<Rightarrow> error + json" where
  "assignPaths tsconfig v =
     (case tsconfig of
        JObj tkvs \<Rightarrow>
          (case map_of tkvs ''compilerOptions'' of
             Some (JObj ckvs) \<Rightarrow>
               Inr (JObj (AList.update ''compilerOptions''
                            (JObj (AList.update ''paths'' (JObj v) ckvs)) tkvs))
           | Some (JArr xs) \<Rightarrow> Inr tsconfig
           | Some (JStr x) \<Rightarrow> Inl TypeError
           | Some (JNum x) \<Rightarrow> Inl TypeError
           | Some (JBool x) \<Rightarrow> Inl TypeError
           | Some JNull \<Rightarrow> Inl TypeError
           | None \<Rightarrow> Inl TypeError)
      | JNull \<Rightarrow> Inl TypeError
      | JBool x \<Rightarrow> Inl TypeError
      | JNum x \<Rightarrow> Inl TypeError
      | JStr x \<Rightarrow> Inl TypeError
      | JArr x \<Rightarrow> Inl TypeError)"

definition addExternalRepo :: "string \<Rightarrow> unit io" where
  "addExternalRepo path = (\<lambda>this.
     bindIO (readJSON (join [externalPath this, path, ''package.json''])) (\<lambda>packageJson.
     bindIO (readJSON (resolve (cwd this) [root this, ''tsconfig.json''])) (\<lambda>tsconfig.
     bindIO (liftE (getProp (Some tsconfig) ''compilerOptions'')) (\<lambda>compilerOptions.
     bindIO (liftE (getProp compilerOptions ''paths'')) (\<lambda>oldPaths.
     bindIO (liftE (getProp (Some packageJson) ''name'')) (\<lambda>pkgName.
     bindIO (liftE (template pkgName)) (\<lambda>scope.
     bindIO (liftE (assignPaths tsconfig
               (objectLiteral (spread oldPaths) (externalEntries scope path)))) (\<lambda>tsconfig'.
     writeJSON (resolve (cwd this) [root this, ''tsconfig.json'']) tsconfig'))))))) this)"

text \<open>
  \<^verbatim>\<open>moduleNames.map(x => `@${packageJson.name}/${x}`)\<close>: the name is read and printed
  once per entry, so an empty listing never reads it.
\<close>

definition getExternalModuleNames :: "string \<Rightarrow> string list io" where
  "getExternalModuleNames path = (\<lambda>this.
     bindIO (readJSON (join [join [externalPath this, path], ''package.json''])) (\<lambda>packageJson.
     bindIO (readdir (join [join [externalPath this, path], ''modules''])) (\<lambda>moduleNames.
     if moduleNames = [] then ret []
     else bindIO (liftE (getProp (Some packageJson) ''name'')) (\<lambda>pkgName.
          bindIO (liftE (template pkgName)) (\<lambda>scope.
            ret (map (\<lambda>x. ''@'' @ scope @ ''/'' @ x) moduleNames))))) this)"

definition getModule :: "string \<Rightarrow> ModuleManager io" where
  "getModule nm = (\<lambda>this. withPM (\<lambda>c. ret (ModuleManager_new (name this) nm (pm_type c))) this)"

text \<open>
  \<^verbatim>\<open>ModuleManager.init\<close> is not in the sources and the specification says only that it
  is the module's on-disk initialization: \<^verbatim>\<open>createModule\<close> takes it as the parameter
  \<open>moduleInit\<close>.
\<close>

definition createModule :: "(ModuleManager \<Rightarrow> unit io) \<Rightarrow> string \<Rightarrow> ModuleManager io" where
  "createModule moduleInit nm =
     bindIO (getModule nm) (\<lambda>module.
     bindIO (moduleInit module) (\<lambda>_.
     bindIO (\<lambda>s. (Inr (checkModule (configManager s) (fullName module)), s)) (\<lambda>declared.
     bindIO (if \<not> declared
             then bindIO (\<lambda>s. (Inr (), s\<lparr>configManager := addModule (configManager s) (fullName module)\<rparr>))
                    (\<lambda>_. saveConfig)
             else ret ()) (\<lambda>_.
     ret module))))"

definition install :: "string list \<Rightarrow> bool option \<Rightarrow> unit io" where
  "install ms dev = withPM (\<lambda>c. PMController_install c ms dev)"

definition addLocalModules :: "string list \<Rightarrow> unit io" where
  "addLocalModules ms =
     bindIO (\<lambda>s. (Inr (), s\<lparr>configManager := foldl addModule (configManager s) ms\<rparr>)) (\<lambda>_.
     saveConfig)"

definition addModules :: "string list \<Rightarrow> bool option \<Rightarrow> unit io" where
  "addModules ms dev = bindIO (install ms dev) (\<lambda>_. addLocalModules ms)"

section \<open>Observing a state\<close>

text \<open>
  The places \<^verbatim>\<open>init\<close> writes to, as keys of the file system: the \<^verbatim>\<open>modules\<close>
  directory, the path-mapping file \<^verbatim>\<open>tsconfig.json\<close>, the configuration file
  \<^verbatim>\<open>replikit.config.ts\<close> and the package manifest of a controller.
\<close>

definition modulesKey :: "state \<Rightarrow> string list" where
  "modulesKey s = pathKey (cwd s) (resolve (cwd s) [root s, ''modules''])"

definition tsconfigKey :: "state \<Rightarrow> string list" where
  "tsconfigKey s = pathKey (cwd s) (resolve (cwd s) [root s, ''tsconfig.json''])"

definition configKey :: "state \<Rightarrow> string list" where
  "configKey s = pathKey (cwd s) (resolve (cwd s) [root s, ''replikit.config.ts''])"

definition manifestKey :: "state \<Rightarrow> PMController \<Rightarrow> string list" where
  "manifestKey s c = pathKey (cwd s) (join [pm_root c, ''package.json''])"

text \<open>A file name: one path segment that is not \<^verbatim>\<open>.\<close> or \<^verbatim>\<open>..\<close>.\<close>

definition plainName :: "string \<Rightarrow> bool" where
  "plainName f \<longleftrightarrow> f \<noteq> [] \<and> f \<noteq> ''.'' \<and> f \<noteq> ''..'' \<and> CHR ''/'' \<notin> set f"

text \<open>
  The file system after the first steps of \<^verbatim>\<open>init\<close>
  (\<^verbatim>\<open>if (!exists) await ensureDir(this.root)\<close>), or the error of \<^verbatim>\<open>ensureDir\<close>.
\<close>

definition rootEnsured :: "state \<Rightarrow> error + filesystem" where
  "rootEnsured s =
     (if osExists (files s) (cwd s) (root s) then Inr (files s)
      else mkdirp [] (pathKey (cwd s) (root s)) (files s))"

text \<open>The JSON document stored at a key, if there is one.\<close>

definition readDoc :: "state \<Rightarrow> string list \<Rightarrow> json option" where
  "readDoc s k = (case lookupNode (files s) k of Some (File (JsonDoc j)) \<Rightarrow> Some j | _ \<Rightarrow> None)"

text \<open>
  The \<^verbatim>\<open>paths\<close> map of the path-mapping file on disk: the properties that
  \<^verbatim>\<open>{...tsconfig.compilerOptions.paths}\<close> would copy; empty where the file or the
  property cannot be read.
\<close>

definition pathsOf :: "state \<Rightarrow> (string \<times> json) list" where
  "pathsOf s =
     (case readDoc s (tsconfigKey s) of
        None \<Rightarrow> []
      | Some tsconfig \<Rightarrow>
          (case getProp (Some tsconfig) ''compilerOptions'' of
             Inl e \<Rightarrow> []
           | Inr compilerOptions \<Rightarrow>
               (case getProp compilerOptions ''paths'' of Inl e \<Rightarrow> [] | Inr p \<Rightarrow> spread p)))"

text \<open>
  A property of \<^verbatim>\<open>compilerOptions\<close> in the path-mapping file on disk (\<open>None\<close> where it
  is absent or cannot be read), and the place under the project root that a value of
  the \<^verbatim>\<open>paths\<close> map denotes: the compiler takes it relative to the \<^verbatim>\<open>baseUrl\<close> of the
  file.
\<close>

definition compilerOption :: "state \<Rightarrow> string \<Rightarrow> json option" where
  "compilerOption s k =
     (case readDoc s (tsconfigKey s) of
        None \<Rightarrow> None
      | Some tsconfig \<Rightarrow>
          (case getProp (Some tsconfig) ''compilerOptions'' of
             Inl e \<Rightarrow> None
           | Inr compilerOptions \<Rightarrow>
               (case getProp compilerOptions k of Inl e \<Rightarrow> None | Inr v \<Rightarrow> v)))"


text \<open>
  A fresh project at \<^verbatim>\<open>/tmp/proj\<close> on an empty file system, with npm selected, and the
  same project once \<^verbatim>\<open>init\<close> has run.
\<close>

definition tmpProj :: state where
  "tmpProj = setPackageManager NPM (ProjectManager ''/tmp/proj'' None ''/'' [] [])"

definition tmpProjReady :: state where
  "tmpProjReady = snd (init tmpProj)"

text \<open>
  The manifest of a linked repository, as \<^verbatim>\<open>addExternalRepo\<close> addresses it and as
  \<^verbatim>\<open>getExternalModuleNames\<close> does, and the repository's \<^verbatim>\<open>modules\<close> directory.
\<close>

definition externalManifestKey :: "state \<Rightarrow> string \<Rightarrow> string list" where
  "externalManifestKey s path = pathKey (cwd s) (join [externalPath s, path, ''package.json''])"

definition repoManifestKey :: "state \<Rightarrow> string \<Rightarrow> string list" where
  "repoManifestKey s path = pathKey (cwd s) (join [join [externalPath s, path], ''package.json''])"

definition repoModulesKey :: "state \<Rightarrow> string \<Rightarrow> string list" where
  "repoModulesKey s path = pathKey (cwd s) (join [join [externalPath s, path], ''modules''])"

text \<open>
  The keys a call \<^verbatim>\<open>addExternalRepo(path)\<close> specifies in the state it starts in: the two
  keys built from the name in the repository's manifest when the call completes, none
  when it fails.
\<close>

definition respecified :: "state \<Rightarrow> string \<Rightarrow> string list" where
  "respecified s path =
     (case fst (addExternalRepo path s) of
        Inl e \<Rightarrow> []
      | Inr u \<Rightarrow>
          (case readDoc s (externalManifestKey s path) of
             None \<Rightarrow> []
           | Some packageJson \<Rightarrow>
               (case getProp (Some packageJson) ''name'' of
                  Inl e \<Rightarrow> []
                | Inr pkgName \<Rightarrow>
                    (case template pkgName of
                       Inl e \<Rightarrow> []
                     | Inr scope \<Rightarrow> map fst (externalEntries scope path)))))"

text \<open>
  A sequence of calls of \<^verbatim>\<open>addExternalRepo\<close>, each awaited before the next, whatever its
  outcome, and the keys the calls of the sequence specify.
\<close>

fun addExternalRepos :: "string list \<Rightarrow> state \<Rightarrow> state" where
  "addExternalRepos [] s = s"
| "addExternalRepos (p # ps) s = addExternalRepos ps (snd (addExternalRepo p s))"

fun respecifiedBy :: "string list \<Rightarrow> state \<Rightarrow> string list" where
  "respecifiedBy [] s = []"
| "respecifiedBy (p # ps) s = respecified s p @ respecifiedBy ps (snd (addExternalRepo p s))"

text \<open>
  The initialized project with a repository linked under \<^verbatim>\<open>external/repo\<close>: its
  manifest declares the name \<^verbatim>\<open>ext\<close>, and its \<^verbatim>\<open>modules\<close> directory holds the module
  directory \<^verbatim>\<open>core\<close> and a plain file.
\<close>

definition linked :: state where
  "linked = tmpProjReady
     \<lparr>files := files tmpProjReady @
        [([''tmp'', ''proj'', ''external''], Dir),
         ([''tmp'', ''proj'', ''external'', ''repo''], Dir),
         ([''tmp'', ''proj'', ''external'', ''repo'', ''package.json''],
            File (JsonDoc (JObj [(''name'', JStr ''ext'')]))),
         ([''tmp'', ''proj'', ''external'', ''repo'', ''modules''], Dir),
         ([''tmp'', ''proj'', ''external'', ''repo'', ''modules'', ''core''], Dir),
         ([''tmp'', ''proj'', ''external'', ''repo'', ''modules'', ''README.md''],
            File (OtherText ''External modules''))]\<rparr>"


definition tmpProjDeclared :: state where
  "tmpProjDeclared = tmpProjReady\<lparr>configManager := \<lparr>modules = [''@proj/auth'']\<rparr>\<rparr>"

text \<open>The workspace metadata file \<^verbatim>\<open>lerna.json\<close>.\<close>

definition lernaKey :: "state \<Rightarrow> string list" where
  "lernaKey s = pathKey (cwd s) (resolve (cwd s) [root s, ''lerna.json''])"

text \<open>
  How many times the configuration file (the file at \<^verbatim>\<open>this.configPath\<close>) has been
  written so far.
\<close>

definition configWrites :: "state \<Rightarrow> nat" where
  "configWrites s =
     (case configPath s of None \<Rightarrow> 0 | Some p \<Rightarrow> count_list (writes s) (pathKey (cwd s) p))"

text \<open>
  What \<^verbatim>\<open>createModule\<close> needs of the on-disk initialization of a module: it leaves the
  configuration manager and the fields of the project manager alone, and does not write
  the configuration file.
\<close>

definition initFrame :: "(ModuleManager \<Rightarrow> unit io) \<Rightarrow> bool" where
  "initFrame moduleInit =
     (\<forall>m s. configManager (snd (moduleInit m s)) = configManager s \<and>
            configPath (snd (moduleInit m s)) = configPath s \<and>
            pm (snd (moduleInit m s)) = pm s \<and>
            name (snd (moduleInit m s)) = name s \<and>
            configWrites (snd (moduleInit m s)) = configWrites s)"

text \<open>An on-disk initialization that creates the directory of the module.\<close>

definition moduleDirInit :: "ModuleManager \<Rightarrow> unit io" where
  "moduleDirInit m = ensureDir (''/tmp/proj/modules/'' @ mod_name m)"

text \<open>
  The initialized npm project with \<^verbatim>\<open>lerna\<close> in the registry, and a project initialized
  with yarn and the same registry.
\<close>

definition withRegistry :: "state" where
  "withRegistry = tmpProjReady\<lparr>registry := [(''lerna'', ''4.0.0'')]\<rparr>"

definition yarnProj :: state where
  "yarnProj = snd (init (setPackageManager Yarn
     (ProjectManager ''/tmp/proj'' None ''/'' [] [(''lerna'', ''4.0.0'')])))"

section \<open>The steps of an operation\<close>

subsection \<open>Paths\<close>

lemma segments_nonempty: "segments p \<noteq> []"
  by (induction p) (auto split: list.splits)

lemma segments_append: "segments (a @ CHR ''/'' # b) = segments a @ segments b"
proof (induction a)
  case Nil
  show ?case by simp
next
  case (Cons c a)
  then show ?case
    using segments_nonempty [of a] by (cases "segments a") auto
qed

lemma segments_plain: "CHR ''/'' \<notin> set f \<Longrightarrow> segments f = [f]"
  by (induction f) auto

lemma segments_slash_free: "x \<in> set (segments p) \<Longrightarrow> CHR ''/'' \<notin> set x"
proof (induction p arbitrary: x)
  case Nil
  then show ?case by simp
next
  case (Cons c p)
  then show ?case
    using segments_nonempty [of p] by (cases "segments p") (auto split: if_splits)
qed

lemma segments_intercalate:
  "xs \<noteq> [] \<Longrightarrow> \<forall>x \<in> set xs. CHR ''/'' \<notin> set x \<Longrightarrow> segments (intercalate ''/'' xs) = xs"
proof (induction xs rule: induct_list012)
  case (3 x y zs)
  then show ?case
    using segments_append [of x "intercalate ''/'' (y # zs)"] by (simp add: segments_plain)
qed (simp_all add: segments_plain)

lemma normalizeSegs_append:
  "normalizeSegs up res (xs @ ys) = normalizeSegs up (normalizeSegs up res xs) ys"
  by (induction xs arbitrary: res) auto

lemma normalizeSegs_subset:
  "x \<in> set (normalizeSegs up res xs) \<Longrightarrow> x \<in> set res \<or> x \<in> set xs \<or> x = ''..''"
proof (induction xs arbitrary: res up)
  case Nil
  then show ?case by simp
next
  case (Cons s xs)
  from Cons.prems show ?case
    by (auto split: if_splits dest!: Cons.IH dest: in_set_butlastD)
qed

lemma normalizeSegs_slash_free:
  assumes "x \<in> set (normalizeSegs up [] (segments p))"
  shows "CHR ''/'' \<notin> set x"
proof -
  from normalizeSegs_subset [OF assms]
  have "x \<in> set (segments p) \<or> x = ''..''"
    by simp
  then show ?thesis
    by (auto dest: segments_slash_free)
qed

lemma normalizeSegs_plain_end:
  "plainName f \<Longrightarrow> normalizeSegs up res (xs @ [f]) = normalizeSegs up res xs @ [f]"
  by (simp add: normalizeSegs_append plainName_def)

text \<open>The key of a path that is printed from segments ending in a plain name ends in that name.\<close>

lemma pathKey_printed:
  assumes f: "plainName f" and free: "\<forall>x \<in> set R. CHR ''/'' \<notin> set x"
  shows "\<exists>Q. pathKey wd (intercalate ''/'' (R @ [f])) = Q @ [f]"
    and "\<exists>Q. pathKey wd (CHR ''/'' # intercalate ''/'' (R @ [f])) = Q @ [f]"
proof -
  let ?n = "intercalate ''/'' (R @ [f])"
  from f free have seg: "segments ?n = R @ [f]"
    by (intro segments_intercalate) (auto simp: plainName_def)
  have "segments (CHR ''/'' # ?n) = [] # R @ [f]"
    by (simp add: seg)
  then show "\<exists>Q. pathKey wd (CHR ''/'' # ?n) = Q @ [f]"
    using normalizeSegs_plain_end [OF f, of False "[]" "[] # R"]
    by (simp add: pathKey_def isAbsolute_def)
  show "\<exists>Q. pathKey wd ?n = Q @ [f]"
  proof (cases "isAbsolute ?n")
    case True
    then show ?thesis
      using normalizeSegs_plain_end [OF f, of False "[]" R] by (simp add: pathKey_def seg)
  next
    case False
    have "segments (wd @ ''/'' @ ?n) = segments wd @ R @ [f]"
      using segments_append [of wd ?n] by (simp add: seg)
    then show ?thesis
      using False normalizeSegs_plain_end [OF f, of False "[]" "segments wd @ R"]
      by (simp add: pathKey_def)
  qed
qed


lemma intercalate_nonempty: "f \<noteq> [] \<Longrightarrow> intercalate sep (R @ [f]) \<noteq> []"
  by (induction R rule: induct_list012) auto

lemma resolveFrom_shape:
  "resolveFrom ps acc = acc \<or> (\<exists>Y. resolveFrom ps acc = Y @ CHR ''/'' # acc)"
proof (induction ps arbitrary: acc)
  case Nil
  show ?case by simp
next
  case (Cons p ps)
  from Cons [of acc] Cons [of "p @ ''/'' @ acc"] show ?case
    by (auto intro: exI [of _ p])
qed

lemma plainName_not_absolute: "plainName f \<Longrightarrow> \<not> isAbsolute f"
  by (cases f) (auto simp: plainName_def isAbsolute_def)

lemma normalized_ends:
  assumes f: "plainName f" and p: "p = f @ e \<or> p = Y @ CHR ''/'' # f @ e" and e: "e = [] \<or> e = ''/''"
  shows "\<exists>R. normalizeSegs up [] (segments p) = R @ [f] \<and> (\<forall>x \<in> set R. CHR ''/'' \<notin> set x)"
proof -
  from f have sf: "segments f = [f]"
    by (simp add: segments_plain plainName_def)
  from e sf have sft: "segments (f @ e) = [f] \<or> segments (f @ e) = [f, []]"
    using segments_append [of f "[]"] by auto
  from p obtain S where S: "segments p = S @ segments (f @ e)" and S': "S = [] \<or> S = segments Y"
    using segments_append [of Y "f @ e"] by auto
  let ?R = "normalizeSegs up [] S"
  from sft S f have "normalizeSegs up [] (segments p) = ?R @ [f]"
    by (auto simp: normalizeSegs_append plainName_def)
  moreover from S' have "\<forall>x \<in> set ?R. CHR ''/'' \<notin> set x"
    by (auto dest: normalizeSegs_slash_free)
  ultimately show ?thesis
    by blast
qed

lemma resolve_key_ends:
  assumes f: "plainName f"
  shows "\<exists>Q. pathKey wd (resolve wd [r, f]) = Q @ [f]"
proof -
  define p where "p = resolveFrom (rev (wd # [r, f])) []"
  from f have "p = resolveFrom [r, wd] (f @ ''/'')"
    unfolding p_def by (simp add: plainName_not_absolute) (simp add: plainName_def)
  with resolveFrom_shape [of "[r, wd]" "f @ ''/''"]
  have "p = f @ ''/'' \<or> (\<exists>Y. p = Y @ CHR ''/'' # f @ ''/'')"
    by auto
  then obtain Y where shape: "p = f @ ''/'' \<or> p = Y @ CHR ''/'' # f @ ''/''"
    by blast
  have printed: "resolve wd [r, f] = intercalate ''/'' (R @ [f]) \<or>
      resolve wd [r, f] = CHR ''/'' # intercalate ''/'' (R @ [f])"
    if "normalizeSegs (\<not> isAbsolute p) [] (segments p) = R @ [f]" for R
  proof -
    from f have "intercalate ''/'' (R @ [f]) \<noteq> []"
      by (intro intercalate_nonempty) (simp add: plainName_def)
    with that show ?thesis
      unfolding resolve_def normalizeString_def Let_def p_def [symmetric]
      by (cases "isAbsolute p") simp_all
  qed
  from normalized_ends [OF f shape, of "\<not> isAbsolute p"] obtain R where
    R: "normalizeSegs (\<not> isAbsolute p) [] (segments p) = R @ [f]" "\<forall>x \<in> set R. CHR ''/'' \<notin> set x"
    by auto
  from printed [OF R(1)] pathKey_printed [OF f R(2), of wd] show ?thesis
    by auto
qed

lemma join_key_ends:
  assumes f: "plainName f"
  shows "\<exists>Q. pathKey wd (join [r, f]) = Q @ [f]"
proof -
  define p where "p = intercalate ''/'' (filter (\<lambda>a. a \<noteq> []) [r, f])"
  from f have shape: "p = f @ [] \<or> p = r @ CHR ''/'' # f @ []"
    unfolding p_def by (auto simp: plainName_def)
  from f have lf: "last f \<noteq> CHR ''/''"
    unfolding plainName_def by (metis last_in_set)
  from f lf have ne: "p \<noteq> []" and last: "last p \<noteq> CHR ''/''"
    unfolding p_def by (auto simp: plainName_def)
  have printed: "join [r, f] = intercalate ''/'' (R @ [f]) \<or>
      join [r, f] = CHR ''/'' # intercalate ''/'' (R @ [f])"
    if "normalizeSegs (\<not> isAbsolute p) [] (segments p) = R @ [f]" for R
  proof -
    from f have "intercalate ''/'' (R @ [f]) \<noteq> []"
      by (intro intercalate_nonempty) (simp add: plainName_def)
    with that ne last show ?thesis
      unfolding join_def normalize_def normalizeString_def Let_def p_def [symmetric]
      by (cases "isAbsolute p") simp_all
  qed
  from normalized_ends [OF f shape, of "\<not> isAbsolute p"] obtain R where
    R: "normalizeSegs (\<not> isAbsolute p) [] (segments p) = R @ [f]" "\<forall>x \<in> set R. CHR ''/'' \<notin> set x"
    by auto
  from printed [OF R(1)] pathKey_printed [OF f R(2), of wd] show ?thesis
    by auto
qed

lemma init_keys_differ:
  "tsconfigKey s \<noteq> configKey s" "manifestKey s c \<noteq> configKey s" "tsconfigKey s \<noteq> manifestKey s c"
proof -
  obtain Q1 where 1: "tsconfigKey s = Q1 @ [''tsconfig.json'']"
    unfolding tsconfigKey_def using resolve_key_ends [of "''tsconfig.json''"] by (auto simp: plainName_def)
  obtain Q2 where 2: "configKey s = Q2 @ [''replikit.config.ts'']"
    unfolding configKey_def using resolve_key_ends [of "''replikit.config.ts''"] by (auto simp: plainName_def)
  obtain Q3 where 3: "manifestKey s c = Q3 @ [''package.json'']"
    unfolding manifestKey_def using join_key_ends [of "''package.json''"] by (auto simp: plainName_def)
  show "tsconfigKey s \<noteq> configKey s" "manifestKey s c \<noteq> configKey s" "tsconfigKey s \<noteq> manifestKey s c"
    by (simp_all add: 1 2 3)
qed


subsection \<open>File system and collaborators\<close>

lemma bindIO_Inr_iff:
  "bindIO m f s = (Inr y, s'') \<longleftrightarrow> (\<exists>x s'. m s = (Inr x, s') \<and> f x s' = (Inr y, s''))"
  by (auto simp: bindIO_def split: prod.splits sum.splits)

lemma bindIO_Inl_iff:
  "bindIO m f s = (Inl e, s'') \<longleftrightarrow>
     m s = (Inl e, s'') \<or> (\<exists>x s'. m s = (Inr x, s') \<and> f x s' = (Inl e, s''))"
  by (auto simp: bindIO_def split: prod.splits sum.splits)

lemma mkdir_Inr:
  "mkdir p s = (Inr u, s') \<Longrightarrow>
     s' = s\<lparr>files := AList.update (pathKey (cwd s) p) Dir (files s)\<rparr> \<and>
     lookupNode (files s) (pathKey (cwd s) p) = None"
  by (auto simp: mkdir_def Let_def split: if_splits option.splits node.splits)

lemma mkdir_Inl: "mkdir p s = (Inl e, s') \<Longrightarrow> s' = s \<and> e = FileSystemError"
  by (auto simp: mkdir_def Let_def split: if_splits option.splits node.splits)

lemma writeFile_Inr:
  "writeFile p c s = (Inr u, s') \<Longrightarrow>
     s' = s\<lparr>files := AList.update (pathKey (cwd s) p) (File c) (files s),
            writes := writes s @ [pathKey (cwd s) p]\<rparr>"
  by (auto simp: writeFile_def Let_def split: if_splits option.splits node.splits)

lemma writeFile_Inl: "writeFile p c s = (Inl e, s') \<Longrightarrow> s' = s"
  by (auto simp: writeFile_def Let_def split: if_splits option.splits node.splits)

lemma ensureDir_Inr:
  "ensureDir p s = (Inr u, s') \<Longrightarrow>
     \<exists>fs'. mkdirp [] (pathKey (cwd s) p) (files s) = Inr fs' \<and> s' = s\<lparr>files := fs'\<rparr>"
  by (auto simp: ensureDir_def split: sum.splits)

lemma mkdirp_error: "mkdirp pre ks fs = Inl e \<Longrightarrow> e = FileSystemError"
  by (induction pre ks fs rule: mkdirp.induct) (auto split: option.splits node.splits)

lemma ensureDir_Inl: "ensureDir p s = (Inl e, s') \<Longrightarrow> s' = s \<and> e = FileSystemError"
  by (auto simp: ensureDir_def split: sum.splits dest: mkdirp_error)

lemma pathExists_eq:
  "pathExists p s = (r, s') \<longleftrightarrow> r = Inr (osExists (files s) (cwd s) p) \<and> s' = s"
  by (auto simp: pathExists_def)

lemma withPM_eq: "withPM f s = (case pm s of None \<Rightarrow> (Inl TypeError, s) | Some c \<Rightarrow> f c s)"
  by (simp add: withPM_def)

lemma PMController_init_Inr:
  "PMController_init c nm priv s = (Inr u, s') \<Longrightarrow>
     manifest c = None \<and>
     s' = s\<lparr>pm := Some (c\<lparr>manifest :=
            Some \<lparr>pkg_name = nm, pkg_private = priv, dependencies = [], devDependencies = []\<rparr>\<rparr>)\<rparr>"
  by (auto simp: PMController_init_def split: option.splits)

lemma PMController_init_Inl: "PMController_init c nm priv s = (Inl e, s') \<Longrightarrow> s' = s"
  by (auto simp: PMController_init_def split: option.splits)

lemma PMController_save_Inr:
  "PMController_save c s = (Inr u, s') \<Longrightarrow>
     \<exists>m. manifest c = Some m \<and>
       s' = s\<lparr>files := AList.update (pathKey (cwd s) (join [pm_root c, ''package.json'']))
                         (File (JsonDoc (manifestJSON m))) (files s),
              writes := writes s @ [pathKey (cwd s) (join [pm_root c, ''package.json''])]\<rparr>"
  by (auto simp: PMController_save_def writeJSON_def throw_def split: option.splits dest: writeFile_Inr)

lemma PMController_save_Inl: "PMController_save c s = (Inl e, s') \<Longrightarrow> s' = s"
  by (auto simp: PMController_save_def writeJSON_def throw_def split: option.splits dest: writeFile_Inl)

lemma saveConfig_Inr:
  "saveConfig s = (Inr u, s') \<Longrightarrow>
     \<exists>p. configPath s = Some p \<and>
       s' = s\<lparr>files := AList.update (pathKey (cwd s) p) (File (ConfigDoc (modules (configManager s)))) (files s),
              writes := writes s @ [pathKey (cwd s) p]\<rparr>"
  by (auto simp: saveConfig_def serialize_def split: option.splits dest: writeFile_Inr)

lemma saveConfig_Inl: "saveConfig s = (Inl e, s') \<Longrightarrow> s' = s"
  by (auto simp: saveConfig_def split: option.splits dest: writeFile_Inl)

lemma init_Inr:
  assumes "init s = (Inr u, s')"
  shows "\<exists>c fs1. pm s = Some c \<and> manifest c = None \<and>
           rootEnsured s = Inr fs1 \<and>
           lookupNode fs1 (modulesKey s) = None \<and>
           s' = s\<lparr>configManager := ConfigManager_init (configManager s),
                  pm := Some (c\<lparr>manifest := Some \<lparr>pkg_name = name s, pkg_private = True,
                                dependencies = [], devDependencies = []\<rparr>\<rparr>),
                  configPath := Some (resolve (cwd s) [root s, ''replikit.config.ts'']),
                  files := AList.update (configKey s) (File (ConfigDoc []))
                     (AList.update (manifestKey s c)
                        (File (JsonDoc (manifestJSON \<lparr>pkg_name = name s, pkg_private = True,
                                dependencies = [], devDependencies = []\<rparr>)))
                     (AList.update (tsconfigKey s) (File (JsonDoc (initialTsconfig (name s))))
                     (AList.update (modulesKey s) Dir fs1))),
                  writes := writes s @ [tsconfigKey s, manifestKey s c, configKey s]\<rparr>"
  using assms unfolding init_def rootEnsured_def modulesKey_def tsconfigKey_def configKey_def manifestKey_def
  by (auto simp: bindIO_Inr_iff pathExists_eq withPM_eq writeJSON_def ret_def ConfigManager_init_def
        split: option.splits if_splits
        dest!: mkdir_Inr writeFile_Inr ensureDir_Inr PMController_init_Inr PMController_save_Inr saveConfig_Inr)


lemma lookupNode_update:
  "k' \<noteq> [] \<Longrightarrow> lookupNode (AList.update k' n fs) k = (if k = k' then Some n else lookupNode fs k)"
  by (simp add: lookupNode_def update_conv')

lemma init_Inl:
  assumes "init s = (Inl e, s')"
  shows "writes s' = writes s \<or> writes s' = writes s @ [tsconfigKey s] \<or>
         (\<exists>c. pm s = Some c \<and> writes s' = writes s @ [tsconfigKey s, manifestKey s c])"
  using assms unfolding init_def tsconfigKey_def manifestKey_def
  by (auto simp: bindIO_Inr_iff bindIO_Inl_iff pathExists_eq withPM_eq writeJSON_def ret_def
        split: option.splits if_splits
        dest!: mkdir_Inr writeFile_Inr ensureDir_Inr PMController_init_Inr PMController_save_Inr saveConfig_Inr
               mkdir_Inl writeFile_Inl ensureDir_Inl PMController_init_Inl PMController_save_Inl saveConfig_Inl)

lemma mkdirp_lookup:
  "mkdirp pre ks fs = Inr fs' \<Longrightarrow>
     lookupNode fs' k = (if lookupNode fs k = None then lookupNode fs' k else lookupNode fs k) \<and>
     (lookupNode fs' k = Some (File c) \<longleftrightarrow> lookupNode fs k = Some (File c))"
proof (induction pre ks fs rule: mkdirp.induct)
  case (1 pre fs)
  then show ?case by simp
next
  case (2 pre seg rest fs)
  show ?case
  proof (cases "lookupNode fs (pre @ [seg])")
    case None
    with 2 show ?thesis by (auto simp: lookupNode_update split: if_splits)
  next
    case (Some n)
    with 2 show ?thesis by (cases n) (auto split: if_splits)
  qed
qed

lemma modules_exist_init_run:
  assumes "lookupNode (files s) (modulesKey s) \<noteq> None"
  shows "init s =
           (Inl FileSystemError,
            s\<lparr>configManager := ConfigManager_init (configManager s),
               files := (case rootEnsured s of Inl e \<Rightarrow> files s | Inr fs1 \<Rightarrow> fs1)\<rparr>)"
proof -
  let ?s0 = "s\<lparr>configManager := ConfigManager_init (configManager s)\<rparr>"
  let ?m = "resolve (cwd s) [root s, ''modules'']"
  from assms obtain n where n: "lookupNode (files s) (pathKey (cwd s) ?m) = Some n"
    by (auto simp: modulesKey_def)
  have mk: "mkdir ?m (?s0\<lparr>files := fs1\<rparr>) = (Inl FileSystemError, ?s0\<lparr>files := fs1\<rparr>)"
    if "lookupNode fs1 (pathKey (cwd s) ?m) = Some n" for fs1
    using that by (simp add: mkdir_def)
  show ?thesis
  proof (cases "osExists (files s) (cwd s) (root s)")
    case True
    have "mkdir ?m ?s0 = (Inl FileSystemError, ?s0)"
      using mk [of "files s"] n by simp
    then show ?thesis
      using True by (simp add: init_def bindIO_def pathExists_def ret_def rootEnsured_def)
  next
    case False
    show ?thesis
    proof (cases "mkdirp [] (pathKey (cwd s) (root s)) (files s)")
      case (Inl e)
      with False mkdirp_error [OF Inl] show ?thesis
        by (simp add: init_def bindIO_def pathExists_def ensureDir_def rootEnsured_def)
    next
      case (Inr fs1)
      from mkdirp_lookup [OF Inr, of "pathKey (cwd s) ?m"] n
      have "lookupNode fs1 (pathKey (cwd s) ?m) = Some n"
        by simp
      from mk [OF this] show ?thesis
        using False Inr by (simp add: init_def bindIO_def pathExists_def ensureDir_def rootEnsured_def)
    qed
  qed
qed

lemma readJSON_Inr:
  "readJSON p s = (Inr j, s') \<Longrightarrow> s' = s \<and> readDoc s (pathKey (cwd s) p) = Some j"
  by (auto simp: readJSON_def readDoc_def split: option.splits node.splits content.splits)

lemma readJSON_Inl:
  "readJSON p s = (Inl e, s') \<Longrightarrow>
     s' = s \<and> readDoc s (pathKey (cwd s) p) = None \<and> (e = FileSystemError \<or> e = SyntaxError)"
  by (auto simp: readJSON_def readDoc_def split: option.splits node.splits content.splits)

lemma liftE_Inr: "liftE r s = (Inr x, s') \<longleftrightarrow> r = Inr x \<and> s' = s"
  by (cases r) (auto simp: liftE_def ret_def throw_def)

lemma liftE_Inl: "liftE r s = (Inl e, s') \<longleftrightarrow> r = Inl e \<and> s' = s"
  by (cases r) (auto simp: liftE_def ret_def throw_def)

lemma addExternalRepo_Inl: "addExternalRepo p s = (Inl e, s') \<Longrightarrow> s' = s"
  unfolding addExternalRepo_def
  by (auto simp: bindIO_Inl_iff liftE_Inl liftE_Inr writeJSON_def
        dest!: readJSON_Inr readJSON_Inl writeFile_Inl)

lemma writeFile_Inr_key:
  "writeFile p c s = (Inr u, s') \<Longrightarrow>
     pathKey (cwd s) p \<noteq> [] \<and>
     s' = s\<lparr>files := AList.update (pathKey (cwd s) p) (File c) (files s),
            writes := writes s @ [pathKey (cwd s) p]\<rparr>"
  by (auto simp: writeFile_def lookupNode_def Let_def split: if_splits option.splits node.splits)

lemma addExternalRepo_Inr:
  assumes "addExternalRepo p s = (Inr u, s')"
  shows "\<exists>packageJson tsconfig compilerOptions oldPaths pkgName scope tsconfig'.
           readDoc s (externalManifestKey s p) = Some packageJson \<and>
           readDoc s (tsconfigKey s) = Some tsconfig \<and>
           getProp (Some tsconfig) ''compilerOptions'' = Inr compilerOptions \<and>
           getProp compilerOptions ''paths'' = Inr oldPaths \<and>
           getProp (Some packageJson) ''name'' = Inr pkgName \<and>
           template pkgName = Inr scope \<and>
           assignPaths tsconfig (objectLiteral (spread oldPaths) (externalEntries scope p)) = Inr tsconfig' \<and>
           tsconfigKey s \<noteq> [] \<and>
           s' = s\<lparr>files := AList.update (tsconfigKey s) (File (JsonDoc tsconfig')) (files s),
                  writes := writes s @ [tsconfigKey s]\<rparr>"
  using assms unfolding addExternalRepo_def externalManifestKey_def tsconfigKey_def
  by (auto simp: bindIO_Inr_iff liftE_Inr writeJSON_def dest!: readJSON_Inr writeFile_Inr_key)


lemma assignPaths_Inr:
  assumes "assignPaths tsconfig v = Inr tsconfig'"
    and "getProp (Some tsconfig) ''compilerOptions'' = Inr compilerOptions"
    and "getProp compilerOptions ''paths'' = Inr oldPaths"
  shows "\<exists>compilerOptions' newPaths.
           getProp (Some tsconfig') ''compilerOptions'' = Inr compilerOptions' \<and>
           getProp compilerOptions' ''paths'' = Inr newPaths \<and>
           spread newPaths = (if \<exists>ckvs. compilerOptions = Some (JObj ckvs) then v else spread oldPaths) \<and>
           (\<forall>k. k \<noteq> ''paths'' \<longrightarrow> getProp compilerOptions' k = getProp compilerOptions k)"
  using assms
  by (auto simp: assignPaths_def update_conv' split: json.splits option.splits)

lemma addExternalRepo_paths:
  assumes "addExternalRepo p s = (Inr u, s')"
  shows "\<exists>packageJson tsconfig compilerOptions pkgName scope.
           readDoc s (externalManifestKey s p) = Some packageJson \<and>
           getProp (Some packageJson) ''name'' = Inr pkgName \<and>
           template pkgName = Inr scope \<and>
           readDoc s (tsconfigKey s) = Some tsconfig \<and>
           getProp (Some tsconfig) ''compilerOptions'' = Inr compilerOptions \<and>
           pathsOf s' =
             (if \<exists>ckvs. compilerOptions = Some (JObj ckvs)
              then objectLiteral (pathsOf s) (externalEntries scope p)
              else pathsOf s) \<and>
           (\<forall>k. k \<noteq> ''paths'' \<longrightarrow> compilerOption s' k = compilerOption s k)"
proof -
  from addExternalRepo_Inr [OF assms]
  obtain packageJson tsconfig compilerOptions oldPaths pkgName scope tsconfig'
    where pkg: "readDoc s (externalManifestKey s p) = Some packageJson"
      and ts: "readDoc s (tsconfigKey s) = Some tsconfig"
      and co: "getProp (Some tsconfig) ''compilerOptions'' = Inr compilerOptions"
      and old: "getProp compilerOptions ''paths'' = Inr oldPaths"
      and nm: "getProp (Some packageJson) ''name'' = Inr pkgName"
      and sc: "template pkgName = Inr scope"
      and asg: "assignPaths tsconfig (objectLiteral (spread oldPaths) (externalEntries scope p)) = Inr tsconfig'"
      and key: "tsconfigKey s \<noteq> []"
      and s': "s' = s\<lparr>files := AList.update (tsconfigKey s) (File (JsonDoc tsconfig')) (files s),
                       writes := writes s @ [tsconfigKey s]\<rparr>"
    by blast
  have before: "pathsOf s = spread oldPaths"
    by (simp add: pathsOf_def ts co old)
  have key': "tsconfigKey s' = tsconfigKey s"
    by (simp add: s' tsconfigKey_def)
  have doc': "readDoc s' (tsconfigKey s) = Some tsconfig'"
    using key by (simp add: s' readDoc_def lookupNode_update)
  from assignPaths_Inr [OF asg co old] obtain compilerOptions' newPaths
    where co': "getProp (Some tsconfig') ''compilerOptions'' = Inr compilerOptions'"
      and new: "getProp compilerOptions' ''paths'' = Inr newPaths"
      and sp: "spread newPaths =
             (if \<exists>ckvs. compilerOptions = Some (JObj ckvs)
              then objectLiteral (spread oldPaths) (externalEntries scope p) else spread oldPaths)"
      and rest: "\<forall>k. k \<noteq> ''paths'' \<longrightarrow> getProp compilerOptions' k = getProp compilerOptions k"
    by blast
  have "pathsOf s' = spread newPaths"
    by (simp add: pathsOf_def key' doc' co' new)
  with sp have paths: "pathsOf s' =
             (if \<exists>ckvs. compilerOptions = Some (JObj ckvs)
              then objectLiteral (pathsOf s) (externalEntries scope p) else pathsOf s)"
    unfolding before by simp
  have "compilerOption s' k = compilerOption s k" if "k \<noteq> ''paths''" for k
    using that rest by (simp add: compilerOption_def key' doc' co' ts co)
  with pkg nm sc ts co paths show ?thesis
    by blast
qed

lemma map_of_externalEntries:
  "map_of (objectLiteral base (externalEntries scope p)) k =
     (if k = ''@'' @ scope @ ''/*/typings''
      then Some (JArr [JStr (''../external/'' @ p @ ''/modules/*/typings'')])
      else if k = ''@'' @ scope @ ''/*''
      then Some (JArr [JStr (''../external/'' @ p @ ''/modules/*/src'')])
      else map_of base k)"
  by (simp add: objectLiteral_def externalEntries_def update_conv')

lemma respecified_eq:
  "fst (addExternalRepo p s) = Inr u \<Longrightarrow>
   readDoc s (externalManifestKey s p) = Some packageJson \<Longrightarrow>
   getProp (Some packageJson) ''name'' = Inr pkgName \<Longrightarrow>
   template pkgName = Inr scope \<Longrightarrow>
   respecified s p = [''@'' @ scope @ ''/*'', ''@'' @ scope @ ''/*/typings'']"
  by (simp add: respecified_def externalEntries_def)

lemma addExternalRepo_keeps:
  assumes "map_of (pathsOf s) k = Some v" and "k \<notin> set (respecified s p)"
  shows "map_of (pathsOf (snd (addExternalRepo p s))) k = Some v"
proof (cases "addExternalRepo p s")
  case (Pair r s')
  show ?thesis
  proof (cases r)
    case (Inl e)
    with Pair addExternalRepo_Inl [of p s e s'] assms show ?thesis
      by simp
  next
    case (Inr u)
    with Pair have run: "addExternalRepo p s = (Inr u, s')"
      by simp
    from addExternalRepo_paths [OF run] obtain packageJson compilerOptions pkgName scope
      where pkg: "readDoc s (externalManifestKey s p) = Some packageJson"
        and nm: "getProp (Some packageJson) ''name'' = Inr pkgName"
        and sc: "template pkgName = Inr scope"
        and paths: "pathsOf s' =
             (if \<exists>ckvs. compilerOptions = Some (JObj ckvs)
              then objectLiteral (pathsOf s) (externalEntries scope p)
              else pathsOf s)"
      by blast
    from run have "fst (addExternalRepo p s) = Inr u"
      by simp
    from assms(2) respecified_eq [OF this pkg nm sc]
    have "k \<noteq> ''@'' @ scope @ ''/*''" "k \<noteq> ''@'' @ scope @ ''/*/typings''"
      by auto
    with paths assms(1) have "map_of (pathsOf s') k = Some v"
      by (simp add: map_of_externalEntries)
    with Pair show ?thesis
      by simp
  qed
qed

lemma readdir_Dir:
  "lookupNode (files s) (pathKey (cwd s) p) = Some Dir \<Longrightarrow>
     readdir p s = (Inr (entries (files s) (pathKey (cwd s) p)), s)"
  by (simp add: readdir_def)

lemma readJSON_doc:
  "readDoc s (pathKey (cwd s) p) = Some j \<Longrightarrow> readJSON p s = (Inr j, s)"
  by (auto simp: readJSON_def readDoc_def split: option.splits node.splits content.splits)

lemma clearjunk_key_unique:
  "(k, n) \<in> set (AList.clearjunk fs) \<Longrightarrow> (k, n') \<in> set (AList.clearjunk fs) \<Longrightarrow> n = n'"
  using distinct_clearjunk [of fs] by (meson eq_key_imp_eq_value)

lemma distinct_entries: "distinct (entries fs d)"
proof -
  let ?xs = "filter (\<lambda>(k, n). k \<noteq> [] \<and> butlast k = d) (AList.clearjunk fs)"
  have "distinct (AList.clearjunk fs)"
    using distinct_clearjunk [of fs] by (simp add: distinct_map)
  then have dxs: "distinct ?xs"
    by simp
  have "inj_on (\<lambda>(k, n). last k) (set ?xs)"
  proof (rule inj_onI)
    fix a b
    assume a: "a \<in> set ?xs" and b: "b \<in> set ?xs"
      and eq: "(case a of (k, n) \<Rightarrow> last k) = (case b of (k, n) \<Rightarrow> last k)"
    obtain k n where [simp]: "a = (k, n)" by (cases a)
    obtain k' n' where [simp]: "b = (k', n')" by (cases b)
    from a b eq have "k \<noteq> []" "k' \<noteq> []" "butlast k = butlast k'" "last k = last k'"
      by auto
    then have "k = k'"
      by (metis append_butlast_last_id)
    with a b clearjunk_key_unique [of k n fs n'] show "a = b"
      by auto
  qed
  with dxs show ?thesis
    unfolding entries_def by (simp add: distinct_map)
qed

lemma sorted_entries: "sorted (entries fs d)"
  by (simp add: entries_def)

lemma set_entries: "set (entries fs d) = {x. lookupNode fs (d @ [x]) \<noteq> None}"
proof -
  have "x \<in> set (entries fs d) \<longleftrightarrow> map_of fs (d @ [x]) \<noteq> None" for x
  proof
    assume "x \<in> set (entries fs d)"
    then obtain k n where kn: "(k, n) \<in> set (AList.clearjunk fs)" "k \<noteq> []" "butlast k = d" "last k = x"
      by (auto simp: entries_def)
    then have "k = d @ [x]"
      by (metis append_butlast_last_id)
    with kn(1) distinct_clearjunk [of fs] have "map_of (AList.clearjunk fs) (d @ [x]) = Some n"
      by simp
    then show "map_of fs (d @ [x]) \<noteq> None"
      by (simp add: map_of_clearjunk)
  next
    assume "map_of fs (d @ [x]) \<noteq> None"
    then obtain n where "map_of (AList.clearjunk fs) (d @ [x]) = Some n"
      by (auto simp: map_of_clearjunk)
    then have "(d @ [x], n) \<in> set (AList.clearjunk fs)"
      by (rule map_of_SomeD)
    then show "x \<in> set (entries fs d)"
      by (force simp: entries_def)
  qed
  then show ?thesis
    by (auto simp: lookupNode_def)
qed



lemma PMController_install_Inr:
  assumes "PMController_install c names dev s = (Inr u, s')"
  shows "\<exists>c'. pm s' = Some c' \<and> pm_type c' = pm_type c \<and> pm_root c' = pm_root c \<and>
           manifestKey s c \<noteq> [] \<and>
           writes s' = writes s @ [manifestKey s c] \<and>
           (\<forall>k. k \<noteq> manifestKey s c \<longrightarrow> lookupNode (files s') k = lookupNode (files s) k) \<and>
           configManager s' = configManager s \<and> configPath s' = configPath s \<and>
           cwd s' = cwd s \<and> root s' = root s \<and> name s' = name s"
  using assms unfolding PMController_install_def PMController_save_def manifestKey_def
  by (auto simp: Let_def writeJSON_def throw_def lookupNode_update
        split: option.splits if_splits dest!: writeFile_Inr_key)

lemma PMController_install_Inl:
  assumes "PMController_install c names dev s = (Inl e, s')"
  shows "files s' = files s \<and> writes s' = writes s \<and>
         configManager s' = configManager s \<and> configPath s' = configPath s \<and>
         cwd s' = cwd s \<and> root s' = root s \<and> name s' = name s"
  using assms unfolding PMController_install_def PMController_save_def
  by (auto simp: Let_def writeJSON_def throw_def
        split: option.splits if_splits dest!: writeFile_Inl)

lemma install_Inl:
  assumes "install ms dev s = (Inl e, s')"
  shows "files s' = files s \<and> writes s' = writes s \<and>
         configManager s' = configManager s \<and> configPath s' = configPath s"
  using assms PMController_install_Inl [of _ ms dev s e s']
  by (auto simp: install_def withPM_def split: option.splits)

lemma lernaConfig_cases:
  "lernaConfig t =
     (case t of
        NPM \<Rightarrow> JObj [(''version'', JStr ''0.0.0''), (''npmClient'', JStr ''npm'')]
      | Yarn \<Rightarrow> JObj [(''version'', JStr ''0.0.0''), (''npmClient'', JStr ''yarn''),
                       (''useWorkspaces'', JBool True)])"
  by (cases t) (simp_all add: lernaConfig_def objectLiteral_def)

lemma addLerna_Inr:
  assumes "addLerna s = (Inr u, s')"
  shows "\<exists>c. pm s = Some c \<and> fst (install [''lerna''] (Some True) s) = Inr () \<and>
           writes s' = writes s @ [manifestKey s c, lernaKey s] \<and>
           readDoc s' (lernaKey s) = Some (lernaConfig (pm_type c))"
proof -
  from assms obtain s1 where
    inst: "withPM (\<lambda>c. PMController_install c [''lerna''] (Some True)) s = (Inr (), s1)" and
    wr: "withPM (\<lambda>c. writeJSON (resolve (cwd s) [root s, ''lerna.json'']) (lernaConfig (pm_type c))) s1
           = (Inr u, s')"
    by (auto simp: addLerna_def bindIO_Inr_iff)
  from inst obtain c where c: "pm s = Some c"
    and run: "PMController_install c [''lerna''] (Some True) s = (Inr (), s1)"
    by (auto simp: withPM_def split: option.splits)
  from PMController_install_Inr [OF run] obtain c' where
    c': "pm s1 = Some c'" "pm_type c' = pm_type c" and
    w1: "writes s1 = writes s @ [manifestKey s c]" and same: "cwd s1 = cwd s"
    by blast
  from wr c' have "writeFile (resolve (cwd s) [root s, ''lerna.json''])
      (JsonDoc (lernaConfig (pm_type c))) s1 = (Inr u, s')"
    by (simp add: withPM_def writeJSON_def)
  from writeFile_Inr_key [OF this] same
  have key: "lernaKey s \<noteq> []"
    and s': "s' = s1\<lparr>files := AList.update (lernaKey s) (File (JsonDoc (lernaConfig (pm_type c)))) (files s1),
                     writes := writes s1 @ [lernaKey s]\<rparr>"
    by (simp_all add: lernaKey_def)
  have "writes s' = writes s @ [manifestKey s c, lernaKey s]"
    by (simp add: s' w1)
  moreover have "readDoc s' (lernaKey s) = Some (lernaConfig (pm_type c))"
    using key by (simp add: s' readDoc_def lookupNode_update)
  moreover have "fst (install [''lerna''] (Some True) s) = Inr ()"
    using inst by (simp add: install_def)
  ultimately show ?thesis
    using c by blast
qed

lemma count_list_distinct: "distinct xs \<Longrightarrow> x \<in> set xs \<Longrightarrow> count_list xs x = 1"
  by (induction xs) auto

lemma getModule_eq:
  "getModule nm s = (r, s') \<longleftrightarrow>
     s' = s \<and> r = (case pm s of None \<Rightarrow> Inl TypeError
                   | Some c \<Rightarrow> Inr (ModuleManager_new (name s) nm (pm_type c)))"
  by (auto simp: getModule_def withPM_def ret_def split: option.splits)

lemma saveConfig_counts:
  assumes "saveConfig s = (Inr u, s')"
  shows "configWrites s' = Suc (configWrites s) \<and> configManager s' = configManager s \<and>
         configPath s' = configPath s \<and> pm s' = pm s \<and> name s' = name s"
  using saveConfig_Inr [OF assms] by (auto simp: configWrites_def)

lemma createModule_Inr:
  assumes frame: "initFrame moduleInit"
    and run: "createModule moduleInit nm s = (Inr m, s')"
  shows "(\<exists>c. pm s = Some c \<and> m = ModuleManager_new (name s) nm (pm_type c)) \<and>
         pm s' = pm s \<and> name s' = name s \<and> configPath s' = configPath s \<and>
         configManager s' = addModule (configManager s) (fullName m) \<and>
         configWrites s' =
           (if checkModule (configManager s) (fullName m) then configWrites s
            else Suc (configWrites s))"
proof -
  from run obtain sa where
    gm: "getModule nm s = (Inr m, s)" and
    mi: "moduleInit m s = (Inr (), sa)" and
    rest: "(if \<not> checkModule (configManager sa) (fullName m)
            then bindIO (\<lambda>s. (Inr (), s\<lparr>configManager := addModule (configManager s) (fullName m)\<rparr>))
                   (\<lambda>_. saveConfig)
            else ret ()) sa = (Inr (), s')"
    by (auto simp: createModule_def bindIO_Inr_iff getModule_eq ret_def)
  from frame mi have fr: "configManager sa = configManager s" "configPath sa = configPath s"
    "pm sa = pm s" "name sa = name s" "configWrites sa = configWrites s"
    unfolding initFrame_def by (metis snd_conv)+
  from gm have who: "\<exists>c. pm s = Some c \<and> m = ModuleManager_new (name s) nm (pm_type c)"
    by (auto simp: getModule_eq split: option.splits)
  show ?thesis
  proof (cases "checkModule (configManager s) (fullName m)")
    case True
    with rest fr have "s' = sa"
      by (simp add: ret_def)
    with True fr who show ?thesis
      by (auto simp: addModule_def checkModule_def)
  next
    case False
    let ?sb = "sa\<lparr>configManager := addModule (configManager sa) (fullName m)\<rparr>"
    from False rest fr have "saveConfig ?sb = (Inr (), s')"
      by (simp add: bindIO_def)
    from saveConfig_counts [OF this] have
      "configWrites s' = Suc (configWrites ?sb)" "configManager s' = configManager ?sb"
      "configPath s' = configPath ?sb" "pm s' = pm ?sb" "name s' = name ?sb"
      by simp_all
    moreover have "configWrites ?sb = configWrites sa"
      by (simp add: configWrites_def split: option.splits)
    ultimately show ?thesis
      using False fr who by simp
  qed
qed

lemma moduleDirInit_frame: "initFrame moduleDirInit"
  by (auto simp: initFrame_def moduleDirInit_def ensureDir_def configWrites_def
        split: sum.splits option.splits)


section \<open>Project initialization\<close>

lemma key_simps:
  "pathKey workdir (resolve workdir [''/tmp/proj'', ''modules'']) = [''tmp'', ''proj'', ''modules'']"
  "pathKey workdir (resolve workdir [''/tmp/proj'', ''tsconfig.json'']) = [''tmp'', ''proj'', ''tsconfig.json'']"
  "pathKey workdir (resolve workdir [''/tmp/proj'', ''replikit.config.ts'']) = [''tmp'', ''proj'', ''replikit.config.ts'']"
  "pathKey workdir (join [''/tmp/proj'', ''package.json'']) = [''tmp'', ''proj'', ''package.json'']"
  by (simp_all add: pathKey_def resolve_def join_def normalize_def normalizeString_def isAbsolute_def Let_def)


text \<open>
  C1. For a project rooted at \<^verbatim>\<open>/tmp/proj\<close>, whatever the package manager, the
  configuration manager passed in, the working directory, the file system and the
  registry: when \<^verbatim>\<open>init()\<close> completes, the project name is \<^verbatim>\<open>proj\<close> (the basename of the
  root), the package manifest, in memory and in \<^verbatim>\<open>/tmp/proj/package.json\<close>, has name
  \<^verbatim>\<open>proj\<close> and \<^verbatim>\<open>private: true\<close>, \<^verbatim>\<open>/tmp/proj/modules\<close> is a directory, and the
  \<^verbatim>\<open>paths\<close> map of \<^verbatim>\<open>/tmp/proj/tsconfig.json\<close> consists of exactly the two entries
  \<^verbatim>\<open>@proj/*\<close> \<open>\<mapsto>\<close> \<^verbatim>\<open>["*/src"]\<close> and \<^verbatim>\<open>@proj/*/typings\<close> \<open>\<mapsto>\<close> \<^verbatim>\<open>["*/typings"]\<close>.
\<close>

theorem init_tmp_proj:
  assumes ok: "fst (init (setPackageManager t (ProjectManager ''/tmp/proj'' cm workdir fs reg))) = Inr ()"
  shows "let s' = snd (init (setPackageManager t (ProjectManager ''/tmp/proj'' cm workdir fs reg))) in
           root s' = ''/tmp/proj'' \<and> basename (root s') = ''proj'' \<and>
           name s' = ''proj'' \<and>
           map_option manifest (pm s') =
             Some (Some \<lparr>pkg_name = ''proj'', pkg_private = True, dependencies = [], devDependencies = []\<rparr>) \<and>
           readDoc s' [''tmp'', ''proj'', ''package.json''] =
             Some (JObj [(''name'', JStr ''proj''), (''private'', JBool True),
                         (''dependencies'', JObj []), (''devDependencies'', JObj [])]) \<and>
           lookupNode (files s') [''tmp'', ''proj'', ''modules''] = Some Dir \<and>
           tsconfigKey s' = [''tmp'', ''proj'', ''tsconfig.json''] \<and>
           pathsOf s' = [(''@proj/*'', JArr [JStr ''*/src'']), (''@proj/*/typings'', JArr [JStr ''*/typings''])]"
proof -
  let ?s = "setPackageManager t (ProjectManager ''/tmp/proj'' cm workdir fs reg)"
  obtain s' where run: "init ?s = (Inr (), s')"
    using ok by (cases "init ?s") auto
  have fields: "root ?s = ''/tmp/proj''" "name ?s = ''proj''" "cwd ?s = workdir"
    "pm ?s = Some (createPMController t ''/tmp/proj'')"
    by (simp_all add: setPackageManager_def ProjectManager_def basename_def)
  from init_Inr [OF run] obtain c fs1 where
    c: "pm ?s = Some c" and s': "s' = ?s\<lparr>configManager := ConfigManager_init (configManager ?s),
                  pm := Some (c\<lparr>manifest := Some \<lparr>pkg_name = name ?s, pkg_private = True,
                                dependencies = [], devDependencies = []\<rparr>\<rparr>),
                  configPath := Some (resolve (cwd ?s) [root ?s, ''replikit.config.ts'']),
                  files := AList.update (configKey ?s) (File (ConfigDoc []))
                     (AList.update (manifestKey ?s c)
                        (File (JsonDoc (manifestJSON \<lparr>pkg_name = name ?s, pkg_private = True,
                                dependencies = [], devDependencies = []\<rparr>)))
                     (AList.update (tsconfigKey ?s) (File (JsonDoc (initialTsconfig (name ?s))))
                     (AList.update (modulesKey ?s) Dir fs1))),
                  writes := writes ?s @ [tsconfigKey ?s, manifestKey ?s c, configKey ?s]\<rparr>"
    by blast
  from c fields have root_c: "pm_root c = ''/tmp/proj''"
    by (auto simp: createPMController_def)
  have keys: "modulesKey ?s = [''tmp'', ''proj'', ''modules'']"
    "tsconfigKey ?s = [''tmp'', ''proj'', ''tsconfig.json'']"
    "configKey ?s = [''tmp'', ''proj'', ''replikit.config.ts'']"
    "manifestKey ?s c = [''tmp'', ''proj'', ''package.json'']"
    by (simp_all add: modulesKey_def tsconfigKey_def configKey_def manifestKey_def fields root_c key_simps)
  have key': "tsconfigKey s' = [''tmp'', ''proj'', ''tsconfig.json'']"
    using keys(2) by (simp add: s' tsconfigKey_def)
  have a: "name s' = ''proj''" "root s' = ''/tmp/proj''" "basename (root s') = ''proj''"
    by (simp_all add: s' fields basename_def)
  have b: "map_option manifest (pm s') =
             Some (Some \<lparr>pkg_name = ''proj'', pkg_private = True, dependencies = [], devDependencies = []\<rparr>)"
    by (simp add: s' fields)
  have c': "readDoc s' [''tmp'', ''proj'', ''package.json''] =
             Some (JObj [(''name'', JStr ''proj''), (''private'', JBool True),
                         (''dependencies'', JObj []), (''devDependencies'', JObj [])])"
    by (simp add: s' keys fields readDoc_def lookupNode_update manifestJSON_def)
  have d: "lookupNode (files s') [''tmp'', ''proj'', ''modules''] = Some Dir"
    by (simp add: s' keys lookupNode_update)
  have e: "readDoc s' [''tmp'', ''proj'', ''tsconfig.json''] = Some (initialTsconfig ''proj'')"
    by (simp add: s' keys fields readDoc_def lookupNode_update)
  have f: "pathsOf s' = [(''@proj/*'', JArr [JStr ''*/src'']), (''@proj/*/typings'', JArr [JStr ''*/typings''])]"
    by (simp add: pathsOf_def key' e initialTsconfig_def tsconfigPaths_def objectLiteral_def)
  from a b c' d key' f show ?thesis
    by (simp add: run)
qed

theorem init_tmp_proj_witness:
  "fst (init tmpProj) = Inr () \<and>
   (let s' = snd (init tmpProj) in
      root s' = ''/tmp/proj'' \<and> basename (root s') = ''proj'' \<and>
      name s' = ''proj'' \<and>
      map_option manifest (pm s') =
        Some (Some \<lparr>pkg_name = ''proj'', pkg_private = True, dependencies = [], devDependencies = []\<rparr>) \<and>
      readDoc s' [''tmp'', ''proj'', ''package.json''] =
        Some (JObj [(''name'', JStr ''proj''), (''private'', JBool True),
                    (''dependencies'', JObj []), (''devDependencies'', JObj [])]) \<and>
      lookupNode (files s') [''tmp'', ''proj'', ''modules''] = Some Dir \<and>
      tsconfigKey s' = [''tmp'', ''proj'', ''tsconfig.json''] \<and>
      pathsOf s' = [(''@proj/*'', JArr [JStr ''*/src'']), (''@proj/*/typings'', JArr [JStr ''*/typings''])])"
proof -
  have ok: "fst (init tmpProj) = Inr ()"
    by code_simp
  with init_tmp_proj [of NPM None "''/''" "[]" "[]"] show ?thesis
    unfolding tmpProj_def by (intro conjI) assumption+
qed

text \<open>
  C8. The files one call of \<^verbatim>\<open>init()\<close> writes, in the order of the writes: a call that
  completes has written the path-mapping file, then the package manifest, then the
  configuration file, and nothing else; a call that fails has written nothing, or the
  path-mapping file only, or the path-mapping file and then the manifest. The three are
  different files, so the configuration file is written last, after the other two, or
  not at all.
\<close>

theorem init_write_order:
  "(case init s of
      (Inr u, s') \<Rightarrow>
        (\<exists>c. pm s = Some c \<and> writes s' = writes s @ [tsconfigKey s, manifestKey s c, configKey s])
    | (Inl e, s') \<Rightarrow>
        writes s' = writes s \<or> writes s' = writes s @ [tsconfigKey s] \<or>
        (\<exists>c. pm s = Some c \<and> writes s' = writes s @ [tsconfigKey s, manifestKey s c])) \<and>
   tsconfigKey s \<noteq> configKey s \<and> (\<forall>c. manifestKey s c \<noteq> configKey s)"
proof (intro conjI allI)
  show "case init s of
      (Inr u, s') \<Rightarrow>
        (\<exists>c. pm s = Some c \<and> writes s' = writes s @ [tsconfigKey s, manifestKey s c, configKey s])
    | (Inl e, s') \<Rightarrow>
        writes s' = writes s \<or> writes s' = writes s @ [tsconfigKey s] \<or>
        (\<exists>c. pm s = Some c \<and> writes s' = writes s @ [tsconfigKey s, manifestKey s c])"
  proof (cases "init s")
    case (Pair r s')
    show ?thesis
    proof (cases r)
      case (Inl e)
      with Pair init_Inl [of s e s'] show ?thesis by simp
    next
      case (Inr u)
      with Pair init_Inr [of s u s'] show ?thesis by auto
    qed
  qed
qed (rule init_keys_differ)+

theorem init_write_order_witness:
  "fst (init tmpProj) = Inr () \<and>
   writes (snd (init tmpProj)) =
     [[''tmp'', ''proj'', ''tsconfig.json''],
      [''tmp'', ''proj'', ''package.json''],
      [''tmp'', ''proj'', ''replikit.config.ts'']]"
proof -
  have ok: "fst (init tmpProj) = Inr ()"
    by code_simp
  have before: "writes tmpProj = []"
    by code_simp
  have keys: "tsconfigKey tmpProj = [''tmp'', ''proj'', ''tsconfig.json'']"
    "configKey tmpProj = [''tmp'', ''proj'', ''replikit.config.ts'']"
    "map_option (manifestKey tmpProj) (pm tmpProj) = Some [''tmp'', ''proj'', ''package.json'']"
    by code_simp+
  from init_write_order [of tmpProj] ok
  obtain c where "pm tmpProj = Some c"
    "writes (snd (init tmpProj)) = writes tmpProj @ [tsconfigKey tmpProj, manifestKey tmpProj c, configKey tmpProj]"
    by (cases "init tmpProj") auto
  with keys before ok show ?thesis
    by simp
qed

text \<open>
  C9, as the code has it. The creation of the root directory is not the only thing
  \<^verbatim>\<open>init()\<close> may have done before it fails on an existing \<^verbatim>\<open>modules\<close> directory: its
  first statement is \<^verbatim>\<open>this.configManager.init()\<close>, which resets the declared-module set.
  In the initialized project with \<^verbatim>\<open>@proj/auth\<close> declared, a second \<^verbatim>\<open>init()\<close> fails and
  leaves no module declared.
\<close>

theorem init_modules_exist_counterexample:
  "lookupNode (files tmpProjDeclared) (modulesKey tmpProjDeclared) = Some Dir \<and>
   fst (init tmpProjDeclared) = Inl FileSystemError \<and>
   modules (configManager tmpProjDeclared) = [''@proj/auth''] \<and>
   modules (configManager (snd (init tmpProjDeclared))) = []"
  by code_simp

text \<open>
  C9, amended. If something already exists at the \<^verbatim>\<open>modules\<close> path under the project
  root, \<^verbatim>\<open>init()\<close> fails with a file-system error and has written no file: the list of
  writes is as before, every regular file of the file system is as before and there is
  no new one. What it has done before failing is to reset the declared-module set in
  memory and, possibly, to create the root directory: the file system is either
  unchanged or what \<^verbatim>\<open>ensureDir(root)\<close> made of it, and apart from the configuration
  manager and the file system the state is as before.
\<close>

theorem init_modules_exist:
  assumes "lookupNode (files s) (modulesKey s) \<noteq> None"
  shows "fst (init s) = Inl FileSystemError \<and>
         snd (init s) = s\<lparr>configManager := ConfigManager_init (configManager s),
                           files := files (snd (init s))\<rparr> \<and>
         modules (configManager (snd (init s))) = [] \<and>
         writes (snd (init s)) = writes s \<and>
         (files (snd (init s)) = files s \<or> rootEnsured s = Inr (files (snd (init s)))) \<and>
         (\<forall>k c. (lookupNode (files (snd (init s))) k = Some (File c)) =
                 (lookupNode (files s) k = Some (File c)))"
proof (cases "rootEnsured s")
  case (Inl e)
  with modules_exist_init_run [OF assms] show ?thesis
    by (simp add: ConfigManager_init_def)
next
  case (Inr fs1)
  have "(lookupNode fs1 k = Some (File c)) = (lookupNode (files s) k = Some (File c))" for k c
    using Inr mkdirp_lookup [of "[]" "pathKey (cwd s) (root s)" "files s" fs1 k c]
    by (auto simp: rootEnsured_def split: if_splits)
  with Inr modules_exist_init_run [OF assms] show ?thesis
    by (simp add: ConfigManager_init_def)
qed

theorem init_modules_exist_witness:
  "lookupNode (files tmpProjDeclared) (modulesKey tmpProjDeclared) \<noteq> None \<and>
   fst (init tmpProjDeclared) = Inl FileSystemError \<and>
   snd (init tmpProjDeclared) = tmpProjDeclared\<lparr>configManager := \<lparr>modules = []\<rparr>\<rparr> \<and>
   writes (snd (init tmpProjDeclared)) = writes tmpProjDeclared \<and>
   files (snd (init tmpProjDeclared)) = files tmpProjDeclared"
proof -
  have exists: "lookupNode (files tmpProjDeclared) (modulesKey tmpProjDeclared) \<noteq> None"
    by code_simp
  have same: "files (snd (init tmpProjDeclared)) = files tmpProjDeclared"
    by code_simp
  have reset: "ConfigManager_init (configManager tmpProjDeclared) = \<lparr>modules = []\<rparr>"
    by code_simp
  from init_modules_exist [OF exists]
  have "fst (init tmpProjDeclared) = Inl FileSystemError"
    and "snd (init tmpProjDeclared) =
           tmpProjDeclared\<lparr>configManager := ConfigManager_init (configManager tmpProjDeclared),
                            files := files (snd (init tmpProjDeclared))\<rparr>"
    and "writes (snd (init tmpProjDeclared)) = writes tmpProjDeclared"
    by blast+
  with exists same reset show ?thesis
    by simp
qed

section \<open>Linking external repositories\<close>

text \<open>
  C2. Along every sequence of \<^verbatim>\<open>addExternalRepo\<close> calls, a key of the \<^verbatim>\<open>paths\<close> map of the
  path-mapping file that none of the calls specifies is still present at the end, with
  the value it had; in particular each single call, failed or not, keeps every entry it
  does not itself specify.
\<close>

theorem addExternalRepos_keep_paths:
  assumes "map_of (pathsOf s) k = Some v" and "k \<notin> set (respecifiedBy ps s)"
  shows "map_of (pathsOf (addExternalRepos ps s)) k = Some v"
  using assms
proof (induction ps arbitrary: s)
  case Nil
  then show ?case by simp
next
  case (Cons p ps)
  from Cons.prems have "map_of (pathsOf (snd (addExternalRepo p s))) k = Some v"
    by (intro addExternalRepo_keeps) auto
  moreover from Cons.prems have "k \<notin> set (respecifiedBy ps (snd (addExternalRepo p s)))"
    by simp
  ultimately show ?case
    using Cons.IH by simp
qed

theorem addExternalRepos_keep_paths_witness:
  "map_of (pathsOf linked) ''@proj/*'' = Some (JArr [JStr ''*/src'']) \<and>
   respecifiedBy [''repo'', ''repo''] linked = [''@ext/*'', ''@ext/*/typings'', ''@ext/*'', ''@ext/*/typings''] \<and>
   ''@proj/*'' \<notin> set (respecifiedBy [''repo'', ''repo''] linked) \<and>
   map_of (pathsOf (addExternalRepos [''repo'', ''repo''] linked)) ''@proj/*'' = Some (JArr [JStr ''*/src''])"
proof -
  have before: "map_of (pathsOf linked) ''@proj/*'' = Some (JArr [JStr ''*/src''])"
    by code_simp
  have keys: "respecifiedBy [''repo'', ''repo''] linked =
      [''@ext/*'', ''@ext/*/typings'', ''@ext/*'', ''@ext/*/typings'']"
    by code_simp
  have other: "''@proj/*'' \<notin> set (respecifiedBy [''repo'', ''repo''] linked)"
    unfolding keys by simp
  from addExternalRepos_keep_paths [OF before other] before keys other show ?thesis
    by simp
qed




text \<open>
  C10. \<^verbatim>\<open>addExternalRepo(p)\<close> reads the manifest of the linked repository first: when
  there is no JSON document at that path (the file is absent, is a directory, or does
  not parse), the call fails with the error of that read and the whole state, the
  path-mapping file included, is as before.
\<close>

theorem addExternalRepo_unreadable_manifest:
  assumes "readDoc s (externalManifestKey s p) = None"
  shows "(fst (addExternalRepo p s) = Inl FileSystemError \<or> fst (addExternalRepo p s) = Inl SyntaxError) \<and>
         snd (addExternalRepo p s) = s"
proof -
  obtain r s1 where rd: "readJSON (join [externalPath s, p, ''package.json'']) s = (r, s1)"
    by (cases "readJSON (join [externalPath s, p, ''package.json'']) s") auto
  have "\<exists>e. r = Inl e"
  proof (cases r)
    case (Inr j)
    with rd readJSON_Inr [of _ s j s1] assms show ?thesis
      by (simp add: externalManifestKey_def)
  qed simp
  then obtain e where e: "r = Inl e" ..
  with rd readJSON_Inl [of _ s e s1] have "s1 = s" "e = FileSystemError \<or> e = SyntaxError"
    by auto
  moreover from rd e have "addExternalRepo p s = (Inl e, s1)"
    by (simp add: addExternalRepo_def bindIO_def)
  ultimately show ?thesis
    by auto
qed


theorem addExternalRepo_unreadable_manifest_witness:
  "readDoc linked (externalManifestKey linked ''missing'') = None \<and>
   fst (addExternalRepo ''missing'' linked) = Inl FileSystemError \<and>
   snd (addExternalRepo ''missing'' linked) = linked"
proof -
  have absent: "readDoc linked (externalManifestKey linked ''missing'') = None"
    by code_simp
  have err: "fst (addExternalRepo ''missing'' linked) \<noteq> Inl SyntaxError"
    by code_simp
  from addExternalRepo_unreadable_manifest [OF absent] absent err show ?thesis
    by simp
qed

text \<open>
  C6, as the code has it. The claim's format \<^verbatim>\<open>{externalPackageName}/{dirName}\<close> is not
  what is returned: every name carries the scope marker \<^verbatim>\<open>@\<close> in front, and the listing
  is that of \<^verbatim>\<open>readdir\<close>, which has an entry for a plain file too. In the linked project
  the repository declares \<^verbatim>\<open>ext\<close> and \<^verbatim>\<open>modules\<close> holds the directory \<^verbatim>\<open>core\<close> and the
  file \<^verbatim>\<open>README.md\<close>; the result is not \<^verbatim>\<open>["ext/core"]\<close>.
\<close>

theorem getExternalModuleNames_counterexample:
  "fst (getExternalModuleNames ''repo'' linked) = Inr [''@ext/README.md'', ''@ext/core''] \<and>
   fst (getExternalModuleNames ''repo'' linked) \<noteq> Inr [''ext'' @ ''/'' @ ''core'']"
  by code_simp

text \<open>
  C6, amended. For a linked repository whose manifest declares the package name \<open>n\<close>
  and whose \<^verbatim>\<open>modules\<close> path is a directory, \<^verbatim>\<open>getExternalModuleNames(p)\<close> returns
  \<^verbatim>\<open>@n/x\<close> for every entry \<open>x\<close> of that directory, plain files included, and changes
  nothing. The entries come sorted, as \<^verbatim>\<open>readdir\<close> returns them, and the listing has
  every entry of the directory exactly once.
\<close>

theorem getExternalModuleNames_scoped:
  assumes pkg: "readDoc s (repoManifestKey s p) = Some packageJson"
    and nm: "getProp (Some packageJson) ''name'' = Inr (Some (JStr n))"
    and dir: "lookupNode (files s) (repoModulesKey s p) = Some Dir"
  shows "getExternalModuleNames p s =
           (Inr (map (\<lambda>x. ''@'' @ n @ ''/'' @ x) (entries (files s) (repoModulesKey s p))), s) \<and>
         sorted (entries (files s) (repoModulesKey s p)) \<and>
         distinct (entries (files s) (repoModulesKey s p)) \<and>
         set (entries (files s) (repoModulesKey s p)) =
           {x. lookupNode (files s) (repoModulesKey s p @ [x]) \<noteq> None}"
proof -
  let ?repo = "join [externalPath s, p]"
  from pkg have rd: "readJSON (join [?repo, ''package.json'']) s = (Inr packageJson, s)"
    by (simp add: repoManifestKey_def readJSON_doc)
  from dir have ls: "readdir (join [?repo, ''modules'']) s =
      (Inr (entries (files s) (repoModulesKey s p)), s)"
    by (simp add: repoModulesKey_def readdir_Dir)
  have "getExternalModuleNames p s =
          (Inr (map (\<lambda>x. ''@'' @ n @ ''/'' @ x) (entries (files s) (repoModulesKey s p))), s)"
    by (simp add: getExternalModuleNames_def bindIO_def rd ls nm liftE_def ret_def template_def)
  then show ?thesis
    by (simp add: distinct_entries set_entries sorted_entries)
qed

theorem getExternalModuleNames_scoped_witness:
  "readDoc linked (repoManifestKey linked ''repo'') = Some (JObj [(''name'', JStr ''ext'')]) \<and>
   lookupNode (files linked) (repoModulesKey linked ''repo'') = Some Dir \<and>
   entries (files linked) (repoModulesKey linked ''repo'') = [''README.md'', ''core''] \<and>
   getExternalModuleNames ''repo'' linked = (Inr [''@ext/README.md'', ''@ext/core''], linked)"
proof -
  have pkg: "readDoc linked (repoManifestKey linked ''repo'') = Some (JObj [(''name'', JStr ''ext'')])"
    by code_simp
  have nm: "getProp (Some (JObj [(''name'', JStr ''ext'')])) ''name'' = Inr (Some (JStr ''ext''))"
    by simp
  have dir: "lookupNode (files linked) (repoModulesKey linked ''repo'') = Some Dir"
    by code_simp
  have ls: "entries (files linked) (repoModulesKey linked ''repo'') = [''README.md'', ''core'']"
    by code_simp
  from getExternalModuleNames_scoped [OF pkg nm dir] pkg dir ls show ?thesis
    by simp
qed

section \<open>Workspace tooling, modules and dependencies\<close>

text \<open>
  C7. \<^verbatim>\<open>addLerna()\<close> completes only if the install of \<^verbatim>\<open>lerna\<close> did; it has then written
  the manifest (the install) and after it \<^verbatim>\<open>lerna.json\<close>, which with yarn is
  \<^verbatim>\<open>{version: "0.0.0", npmClient: "yarn", useWorkspaces: true}\<close> and with npm
  \<^verbatim>\<open>{version: "0.0.0", npmClient: "npm"}\<close>, without the field \<^verbatim>\<open>useWorkspaces\<close>. If the
  install fails, \<^verbatim>\<open>addLerna()\<close> fails with the same error and no file has been written.
\<close>

theorem addLerna_metadata:
  "(fst (addLerna s) = Inr () \<longrightarrow>
      (\<exists>c. pm s = Some c \<and>
         fst (install [''lerna''] (Some True) s) = Inr () \<and>
         writes (snd (addLerna s)) = writes s @ [manifestKey s c, lernaKey s] \<and>
         readDoc (snd (addLerna s)) (lernaKey s) =
           Some (case pm_type c of
                   NPM \<Rightarrow> JObj [(''version'', JStr ''0.0.0''), (''npmClient'', JStr ''npm'')]
                 | Yarn \<Rightarrow> JObj [(''version'', JStr ''0.0.0''), (''npmClient'', JStr ''yarn''),
                                  (''useWorkspaces'', JBool True)]))) \<and>
   (fst (install [''lerna''] (Some True) s) \<noteq> Inr () \<longrightarrow>
      fst (addLerna s) = fst (install [''lerna''] (Some True) s) \<and>
      files (snd (addLerna s)) = files s \<and>
      writes (snd (addLerna s)) = writes s)"
proof (rule conjI; rule impI)
  assume "fst (addLerna s) = Inr ()"
  then obtain s' where "addLerna s = (Inr (), s')"
    by (cases "addLerna s") auto
  from addLerna_Inr [OF this] this
  show "\<exists>c. pm s = Some c \<and>
         fst (install [''lerna''] (Some True) s) = Inr () \<and>
         writes (snd (addLerna s)) = writes s @ [manifestKey s c, lernaKey s] \<and>
         readDoc (snd (addLerna s)) (lernaKey s) =
           Some (case pm_type c of
                   NPM \<Rightarrow> JObj [(''version'', JStr ''0.0.0''), (''npmClient'', JStr ''npm'')]
                 | Yarn \<Rightarrow> JObj [(''version'', JStr ''0.0.0''), (''npmClient'', JStr ''yarn''),
                                  (''useWorkspaces'', JBool True)])"
    by (auto simp: lernaConfig_cases)
next
  assume fails: "fst (install [''lerna''] (Some True) s) \<noteq> Inr ()"
  then obtain e s1 where inst: "install [''lerna''] (Some True) s = (Inl e, s1)"
    by (cases "install [''lerna''] (Some True) s"; cases "fst (install [''lerna''] (Some True) s)") auto
  then have run: "addLerna s = (Inl e, s1)"
    by (simp add: addLerna_def install_def bindIO_def)
  from install_Inl [OF inst] have "files s1 = files s" "writes s1 = writes s"
    by simp_all
  with run inst show "fst (addLerna s) = fst (install [''lerna''] (Some True) s) \<and>
      files (snd (addLerna s)) = files s \<and> writes (snd (addLerna s)) = writes s"
    by simp
qed

theorem addLerna_metadata_witness:
  "fst (addLerna yarnProj) = Inr () \<and>
   readDoc (snd (addLerna yarnProj)) (lernaKey yarnProj) =
     Some (JObj [(''version'', JStr ''0.0.0''), (''npmClient'', JStr ''yarn''), (''useWorkspaces'', JBool True)]) \<and>
   fst (addLerna withRegistry) = Inr () \<and>
   readDoc (snd (addLerna withRegistry)) (lernaKey withRegistry) =
     Some (JObj [(''version'', JStr ''0.0.0''), (''npmClient'', JStr ''npm'')]) \<and>
   fst (install [''lerna''] (Some True) tmpProjReady) = Inl PackageManagerError \<and>
   fst (addLerna tmpProjReady) = Inl PackageManagerError \<and>
   files (snd (addLerna tmpProjReady)) = files tmpProjReady"
proof -
  have yarn: "fst (addLerna yarnProj) = Inr ()"
    by code_simp
  have yarn_type: "map_option pm_type (pm yarnProj) = Some Yarn"
    by code_simp
  have npm: "fst (addLerna withRegistry) = Inr ()"
    by code_simp
  have npm_type: "map_option pm_type (pm withRegistry) = Some NPM"
    by code_simp
  have fails: "fst (install [''lerna''] (Some True) tmpProjReady) = Inl PackageManagerError"
    by code_simp
  from addLerna_metadata [of yarnProj] yarn yarn_type
  have a: "readDoc (snd (addLerna yarnProj)) (lernaKey yarnProj) =
     Some (JObj [(''version'', JStr ''0.0.0''), (''npmClient'', JStr ''yarn''), (''useWorkspaces'', JBool True)])"
    by auto
  from addLerna_metadata [of withRegistry] npm npm_type
  have b: "readDoc (snd (addLerna withRegistry)) (lernaKey withRegistry) =
     Some (JObj [(''version'', JStr ''0.0.0''), (''npmClient'', JStr ''npm'')])"
    by auto
  from addLerna_metadata [of tmpProjReady] fails
  have c: "fst (addLerna tmpProjReady) = Inl PackageManagerError"
    "files (snd (addLerna tmpProjReady)) = files tmpProjReady"
    by simp_all
  from yarn a npm b fails c show ?thesis
    by simp
qed

text \<open>
  C5. If the install step of \<^verbatim>\<open>addModules\<close> fails, \<^verbatim>\<open>addModules\<close> ends there with the
  error and the state of the install: the declared-module set is as before, and so are
  the files (the configuration file among them); nothing has been written.
\<close>

theorem addModules_install_fails:
  assumes "fst (install ms dev s) = Inl e"
  shows "addModules ms dev s = install ms dev s \<and>
         configManager (snd (addModules ms dev s)) = configManager s \<and>
         files (snd (addModules ms dev s)) = files s \<and>
         writes (snd (addModules ms dev s)) = writes s"
proof -
  from assms obtain s1 where inst: "install ms dev s = (Inl e, s1)"
    by (cases "install ms dev s") auto
  then have "addModules ms dev s = (Inl e, s1)"
    by (simp add: addModules_def bindIO_def)
  with inst install_Inl [OF inst] show ?thesis
    by simp
qed


theorem addModules_install_fails_witness:
  "fst (install [''left-pad''] None tmpProjReady) = Inl PackageManagerError \<and>
   fst (addModules [''left-pad''] None tmpProjReady) = Inl PackageManagerError \<and>
   configManager (snd (addModules [''left-pad''] None tmpProjReady)) = configManager tmpProjReady \<and>
   files (snd (addModules [''left-pad''] None tmpProjReady)) = files tmpProjReady"
proof -
  have fails: "fst (install [''left-pad''] None tmpProjReady) = Inl PackageManagerError"
    by code_simp
  from addModules_install_fails [OF fails]
  have same: "addModules [''left-pad''] None tmpProjReady = install [''left-pad''] None tmpProjReady"
    and kept: "configManager (snd (addModules [''left-pad''] None tmpProjReady)) = configManager tmpProjReady"
      "files (snd (addModules [''left-pad''] None tmpProjReady)) = files tmpProjReady"
    by blast+
  from fails have "fst (addModules [''left-pad''] None tmpProjReady) = Inl PackageManagerError"
    unfolding same .
  with fails kept show ?thesis
    by blast
qed

text \<open>
  C4. Let the on-disk initialization of a module leave the configuration alone, and let
  the declared-module list have no duplicates. If \<^verbatim>\<open>createModule(nm)\<close> returns the module
  \<open>m\<close>, and the on-disk initialization succeeds once more, then a second
  \<^verbatim>\<open>createModule(nm)\<close> returns the same module \<open>m\<close>, whose fully-qualified name is in the
  declared-module list exactly once; the second call changes neither the configuration
  manager nor the number of writes of the configuration file, and the first call wrote
  that file at most once.
\<close>

theorem createModule_twice:
  assumes frame: "initFrame moduleInit"
    and nodup: "distinct (modules (configManager s))"
    and first: "createModule moduleInit nm s = (Inr m, s1)"
    and again: "fst (moduleInit m s1) = Inr ()"
  shows "\<exists>s2. createModule moduleInit nm s1 = (Inr m, s2) \<and>
           fullName m = ''@'' @ name s @ ''/'' @ nm \<and>
           count_list (modules (configManager s2)) (fullName m) = 1 \<and>
           configManager s2 = configManager s1 \<and>
           configWrites s2 = configWrites s1 \<and>
           configWrites s1 \<le> configWrites s + 1"
proof -
  from createModule_Inr [OF frame first] obtain c where
    c: "pm s = Some c" and m: "m = ModuleManager_new (name s) nm (pm_type c)" and
    same: "pm s1 = pm s" "name s1 = name s" and
    cm1: "configManager s1 = addModule (configManager s) (fullName m)" and
    w1: "configWrites s1 =
           (if checkModule (configManager s) (fullName m) then configWrites s
            else Suc (configWrites s))"
    by blast
  have declared: "checkModule (configManager s1) (fullName m)"
    by (simp add: cm1 checkModule_def addModule_def)
  have dist1: "distinct (modules (configManager s1))"
    using nodup by (simp add: cm1 addModule_def)
  obtain sb where mi: "moduleInit m s1 = (Inr (), sb)"
    using again by (cases "moduleInit m s1") auto
  from frame mi have fr: "configManager sb = configManager s1" "configWrites sb = configWrites s1"
    unfolding initFrame_def by (metis snd_conv)+
  have gm: "getModule nm s1 = (Inr m, s1)"
    by (simp add: getModule_eq same c m)
  have second: "createModule moduleInit nm s1 = (Inr m, sb)"
    using declared fr(1) by (simp add: createModule_def bindIO_def gm mi ret_def)
  have "count_list (modules (configManager sb)) (fullName m) = 1"
    using declared dist1 fr(1)
    by (simp add: checkModule_def count_list_distinct)
  moreover have "fullName m = ''@'' @ name s @ ''/'' @ nm"
    by (simp add: m ModuleManager_new_def)
  moreover have "configWrites s1 \<le> configWrites s + 1"
    by (simp add: w1)
  ultimately show ?thesis
    using second fr by simp
qed

theorem createModule_twice_witness:
  "initFrame moduleDirInit \<and>
   distinct (modules (configManager tmpProjReady)) \<and>
   fst (createModule moduleDirInit ''auth'' tmpProjReady) =
     Inr \<lparr>mod_name = ''auth'', fullName = ''@proj/auth'', mod_pm = NPM\<rparr> \<and>
   (\<exists>s2. createModule moduleDirInit ''auth'' (snd (createModule moduleDirInit ''auth'' tmpProjReady)) =
           (Inr \<lparr>mod_name = ''auth'', fullName = ''@proj/auth'', mod_pm = NPM\<rparr>, s2) \<and>
         count_list (modules (configManager s2)) ''@proj/auth'' = 1 \<and>
         configWrites s2 = configWrites (snd (createModule moduleDirInit ''auth'' tmpProjReady)) \<and>
         configWrites (snd (createModule moduleDirInit ''auth'' tmpProjReady)) \<le> configWrites tmpProjReady + 1)"
proof -
  let ?m = "\<lparr>mod_name = ''auth'', fullName = ''@proj/auth'', mod_pm = NPM\<rparr>"
  let ?s1 = "snd (createModule moduleDirInit ''auth'' tmpProjReady)"
  have nodup: "distinct (modules (configManager tmpProjReady))"
    by code_simp
  have ok: "fst (createModule moduleDirInit ''auth'' tmpProjReady) = Inr ?m"
    by code_simp
  then have first: "createModule moduleDirInit ''auth'' tmpProjReady = (Inr ?m, ?s1)"
    by (cases "createModule moduleDirInit ''auth'' tmpProjReady") simp
  have again: "fst (moduleDirInit ?m ?s1) = Inr ()"
    by code_simp
  from createModule_twice [OF moduleDirInit_frame nodup first again] moduleDirInit_frame nodup ok
  show ?thesis
    by auto
qed


end
